theory Spec2Isabelle
  imports Main "HOL-Library.Sublist" "HOL-Library.AList"
begin

section \<open>Paths (build.js)\<close>

text \<open>
  JavaScript strings are modelled as \<open>string\<close>. The separator \<open>/\<close> is a single
  character in every encoding, so nothing below depends on how other characters
  are encoded.
\<close>

definition sep :: char where
  "sep = CHR ''/''"

text \<open>\<^verbatim>\<open>path.match(/\/$/)\<close>: the string ends with a separator.\<close>

definition ends_with_sep :: "string \<Rightarrow> bool" where
  "ends_with_sep p = (p \<noteq> [] \<and> last p = sep)"

text \<open>
  \<^verbatim>\<open>str.replace(pat, rep)\<close> with a string pattern: only the first occurrence of
  \<open>pat\<close> is replaced (the replacement used by the source, \<open>/\<close>, has no \<open>$\<close>
  pattern in it).
\<close>

primrec replace_str :: "string \<Rightarrow> string \<Rightarrow> string \<Rightarrow> string" where
  "replace_str pat rep [] = (if pat = [] then rep else [])"
| "replace_str pat rep (c # cs) =
     (if prefix pat (c # cs) then rep @ drop (length pat) (c # cs)
      else c # replace_str pat rep cs)"

text \<open>
  \<^verbatim>\<open>
  function getAbsolutePath(path, file) {
    if (path.length > 0 && !path.match(/\/$/)) { path += '/'; }
    return `${process.cwd()}/${(path + file).replace('//', '/')}`;
  }
  \<close>
  \<open>process.cwd()\<close> is the first argument of the model.
\<close>

definition getAbsolutePath :: "string \<Rightarrow> string \<Rightarrow> string \<Rightarrow> string" where
  "getAbsolutePath cwd path file =
     (let path' = (if length path > 0 \<and> \<not> ends_with_sep path then path @ ''/'' else path)
      in cwd @ ''/'' @ replace_str ''//'' ''/'' (path' @ file))"

text \<open>A duplicate separator: two adjacent \<open>/\<close>.\<close>

fun has_dup_sep :: "string \<Rightarrow> bool" where
  "has_dup_sep (a # b # cs) = ((a = sep \<and> b = sep) \<or> has_dup_sep (b # cs))"
| "has_dup_sep _ = False"

text \<open>Dropping one trailing, respectively one leading, separator.\<close>

definition strip_trailing_sep :: "string \<Rightarrow> string" where
  "strip_trailing_sep p = (if ends_with_sep p then butlast p else p)"

definition strip_leading_sep :: "string \<Rightarrow> string" where
  "strip_leading_sep f = (case f of [] \<Rightarrow> [] | c # cs \<Rightarrow> if c = sep then cs else f)"

text \<open>
  The number of duplicate separators (adjacent pairs of \<open>/\<close>), and the base as the
  function extends it before it appends the fragment.
\<close>

fun count_dup_sep :: "string \<Rightarrow> nat" where
  "count_dup_sep (a # b # cs) = (if a = sep \<and> b = sep then 1 else 0) + count_dup_sep (b # cs)"
| "count_dup_sep _ = 0"

definition with_trailing_sep :: "string \<Rightarrow> string" where
  "with_trailing_sep path =
     (if length path > 0 \<and> \<not> ends_with_sep path then path @ ''/'' else path)"

section \<open>Entry declarations (build.js)\<close>

text \<open>
  The value of one key of \<open>entries\<close>: a string, an array of strings, or an object with
  \<open>source\<close>, \<open>external\<close> and \<open>format\<close>. The same type serves for the resolved
  entry, which the source builds as an array or as a copy of the object
  (\<open>None\<close> is an absent property).
\<close>

datatype entry =
  StringEntry string
| ListEntry "string list"
| ObjectEntry entry "string list option" "string option"

text \<open>
  \<^verbatim>\<open>
  function getMappedEntries(source, entry) {
    let sources;
    if (entry instanceof Object) {
      if (Array.isArray(entry)) { sources = entry; }
      else {
        let entryCopy = Object.assign({}, entry);
        entryCopy.source = getMappedEntries(source, entryCopy.source);
        return entryCopy;
      }
    } else { sources = [entry]; }
    return sources.map(file => getAbsolutePath(source, file));
  }
  \<close>
\<close>

fun getMappedEntries :: "string \<Rightarrow> string \<Rightarrow> entry \<Rightarrow> entry" where
  "getMappedEntries cwd source (ObjectEntry src ext fmt) =
     ObjectEntry (getMappedEntries cwd source src) ext fmt"
| "getMappedEntries cwd source (ListEntry sources) =
     ListEntry (map (getAbsolutePath cwd source) sources)"
| "getMappedEntries cwd source (StringEntry e) =
     ListEntry (map (getAbsolutePath cwd source) [e])"

text \<open>Observations on an entry: its source paths in order, and its options.\<close>

fun entry_paths :: "entry \<Rightarrow> string list" where
  "entry_paths (StringEntry s) = [s]"
| "entry_paths (ListEntry fs) = fs"
| "entry_paths (ObjectEntry src ext fmt) = entry_paths src"

fun entry_external :: "entry \<Rightarrow> string list option" where
  "entry_external (ObjectEntry src ext fmt) = ext"
| "entry_external _ = None"

fun entry_format :: "entry \<Rightarrow> string option" where
  "entry_format (ObjectEntry src ext fmt) = fmt"
| "entry_format _ = None"

fun is_object_entry :: "entry \<Rightarrow> bool" where
  "is_object_entry (ObjectEntry src ext fmt) = True"
| "is_object_entry _ = False"

section \<open>Errors, promises and error handlers\<close>

text \<open>
  What JavaScript throws: a \<open>ReferenceError\<close> for reading an identifier that is not
  declared, a \<open>TypeError\<close> for calling something that is not a function, a file-system
  error with its code, and whatever a backend library raises.
\<close>

datatype error =
  ReferenceError string
| TypeError string
| FsError string string
| Failure string

text \<open>
  A settled promise. A function of the source that may throw before it returns has the
  result type \<open>error + 'a\<close> (\<open>Inl\<close> is the exception); one that returns a promise has
  \<open>'a promise\<close>; one that may do either has \<open>error + 'a promise\<close>.
\<close>

datatype 'a promise = Fulfilled 'a | Rejected error

text \<open>\<^verbatim>\<open>new Promise(resolve => resolve(e))\<close>: an exception of \<open>e\<close> rejects the promise.\<close>

definition promise_of :: "error + 'a \<Rightarrow> 'a promise" where
  "promise_of r = (case r of Inl e \<Rightarrow> Rejected e | Inr v \<Rightarrow> Fulfilled v)"

text \<open>
  \<open>p.then(f)\<close> and \<open>p.catch(h)\<close>. Callbacks have effects, so they take and return the
  state; what a callback returns or throws is the promise it yields.
\<close>

definition promise_then ::
  "'a promise \<times> 's \<Rightarrow> ('a \<Rightarrow> 's \<Rightarrow> 'b promise \<times> 's) \<Rightarrow> 'b promise \<times> 's" where
  "promise_then ps f =
     (case ps of (Fulfilled v, s) \<Rightarrow> f v s | (Rejected e, s) \<Rightarrow> (Rejected e, s))"

definition promise_catch ::
  "'a promise \<times> 's \<Rightarrow> (error \<Rightarrow> 's \<Rightarrow> 'a promise \<times> 's) \<Rightarrow> 'a promise \<times> 's" where
  "promise_catch ps h =
     (case ps of (Fulfilled v, s) \<Rightarrow> (Fulfilled v, s) | (Rejected e, s) \<Rightarrow> h e s)"

text \<open>
  \<open>Promise.all\<close>: fulfilled with all the values when every member is fulfilled, rejected
  as soon as one member is (here: with the first rejection in list order).
\<close>

fun promise_all :: "'a promise list \<Rightarrow> 'a list promise" where
  "promise_all [] = Fulfilled []"
| "promise_all (Rejected e # ps) = Rejected e"
| "promise_all (Fulfilled v # ps) =
     (case promise_all ps of Fulfilled vs \<Rightarrow> Fulfilled (v # vs) | Rejected e \<Rightarrow> Rejected e)"

text \<open>
  The error handlers that exist: \<open>defaultHandleError\<close> of build.js (\<open>console.error\<close>),
  the initial handler of the \<open>CSS\<close> class (\<open>console.log\<close>), and handlers supplied by
  the user. The two loggers return; a handler of the user is any function, so it returns or
  throws.
\<close>

datatype handler = DefaultHandleError | CssConsoleLog | UserHandler nat

record fileSet =
  files :: "string list"
  content :: string

section \<open>The file system\<close>

text \<open>
  The part of Node's \<open>fs\<close> module and of \<open>glob\<close> that the sources call, over a directory
  tree. A path is resolved against the working directory; empty segments and \<open>.\<close> are
  skipped, \<open>..\<close> steps up. Symbolic links and permissions are not represented.
\<close>

datatype node = File string | Dir "(string \<times> node) list"

record filesystem =
  workdir :: string
  tree :: node

fun split_sep :: "string \<Rightarrow> string list" where
  "split_sep [] = [] # []"
| "split_sep (c # cs) =
     (if c = sep then [] # split_sep cs
      else (case split_sep cs of [] \<Rightarrow> [c] # [] | s # ss \<Rightarrow> (c # s) # ss))"

fun normalise :: "string list \<Rightarrow> string list \<Rightarrow> string list" where
  "normalise acc [] = rev acc"
| "normalise acc (s # ss) =
     (if s = [] \<or> s = ''.'' then normalise acc ss
      else if s = ''..'' then normalise (tl acc) ss
      else normalise (s # acc) ss)"

definition resolve :: "filesystem \<Rightarrow> string \<Rightarrow> string list" where
  "resolve fs p =
     (if p \<noteq> [] \<and> hd p = sep then normalise [] (split_sep p)
      else normalise [] (split_sep (workdir fs) @ split_sep p))"

fun lookup :: "node \<Rightarrow> string list \<Rightarrow> node option" where
  "lookup n [] = Some n"
| "lookup (File c) (s # ss) = None"
| "lookup (Dir es) (s # ss) =
     (case map_of es s of None \<Rightarrow> None | Some n \<Rightarrow> lookup n ss)"

text \<open>Storing a node at a path whose parent directory exists.\<close>

fun store :: "node \<Rightarrow> string list \<Rightarrow> node \<Rightarrow> node option" where
  "store n [] new = Some new"
| "store (File c) (s # ss) new = None"
| "store (Dir es) (s # ss) new =
     (if ss = [] then Some (Dir (AList.update s new es))
      else (case map_of es s of
              None \<Rightarrow> None
            | Some n \<Rightarrow> (case store n ss new of
                          None \<Rightarrow> None
                        | Some n' \<Rightarrow> Some (Dir (AList.update s n' es)))))"

fun remove :: "node \<Rightarrow> string list \<Rightarrow> node option" where
  "remove n [] = None"
| "remove (File c) (s # ss) = None"
| "remove (Dir es) (s # ss) =
     (if ss = [] then Some (Dir (AList.delete s es))
      else (case map_of es s of
              None \<Rightarrow> None
            | Some n \<Rightarrow> (case remove n ss of
                          None \<Rightarrow> None
                        | Some n' \<Rightarrow> Some (Dir (AList.update s n' es)))))"

fun is_dir :: "node \<Rightarrow> bool" where
  "is_dir (Dir es) = True"
| "is_dir (File c) = False"

text \<open>
  \<open>stat\<close>: the node a path names, if any. The empty path names nothing, and a path with
  a trailing separator names only a directory.
\<close>

definition stat :: "filesystem \<Rightarrow> string \<Rightarrow> node option" where
  "stat fs p =
     (if p = [] then None
      else (case lookup (tree fs) (resolve fs p) of
              None \<Rightarrow> None
            | Some n \<Rightarrow> if ends_with_sep p \<and> \<not> is_dir n then None else Some n))"

definition existsSync :: "filesystem \<Rightarrow> string \<Rightarrow> bool" where
  "existsSync fs p = (stat fs p \<noteq> None)"

definition parent_is_dir :: "filesystem \<Rightarrow> string \<Rightarrow> bool" where
  "parent_is_dir fs p =
     (case lookup (tree fs) (butlast (resolve fs p)) of Some (Dir es) \<Rightarrow> True | _ \<Rightarrow> False)"

definition store_at :: "filesystem \<Rightarrow> string \<Rightarrow> node \<Rightarrow> string \<Rightarrow> error + filesystem" where
  "store_at fs p n call =
     (case store (tree fs) (resolve fs p) n of
        None \<Rightarrow> Inl (FsError ''ENOENT'' call)
      | Some r \<Rightarrow> Inr (fs\<lparr>tree := r\<rparr>))"

definition mkdirSync :: "string \<Rightarrow> filesystem \<Rightarrow> error + filesystem" where
  "mkdirSync p fs =
     (if p = [] then Inl (FsError ''ENOENT'' ''mkdir'')
      else if lookup (tree fs) (resolve fs p) \<noteq> None then Inl (FsError ''EEXIST'' ''mkdir'')
      else if \<not> parent_is_dir fs p then Inl (FsError ''ENOENT'' ''mkdir'')
      else store_at fs p (Dir []) ''mkdir'')"

text \<open>
  \<open>fs.copyFileSync(src, dest)\<close> copies a regular file; it throws on a directory, on a
  missing source and on a destination that cannot be created, and returns \<open>undefined\<close>.
\<close>

definition copyFileSync :: "string \<Rightarrow> string \<Rightarrow> filesystem \<Rightarrow> error + filesystem" where
  "copyFileSync src dest fs =
     (case stat fs src of
        None \<Rightarrow> Inl (FsError ''ENOENT'' ''copyfile'')
      | Some (Dir es) \<Rightarrow> Inl (FsError ''EISDIR'' ''copyfile'')
      | Some (File c) \<Rightarrow>
          if dest = [] then Inl (FsError ''ENOENT'' ''copyfile'')
          else (case lookup (tree fs) (resolve fs dest) of
                  Some (Dir es) \<Rightarrow> Inl (FsError ''EISDIR'' ''copyfile'')
                | Some (File d) \<Rightarrow>
                    if ends_with_sep dest then Inl (FsError ''ENOTDIR'' ''copyfile'')
                    else store_at fs dest (File c) ''copyfile''
                | None \<Rightarrow>
                    if ends_with_sep dest \<or> \<not> parent_is_dir fs dest
                    then Inl (FsError ''ENOENT'' ''copyfile'')
                    else store_at fs dest (File c) ''copyfile''))"

definition writeFileSync :: "string \<Rightarrow> string \<Rightarrow> filesystem \<Rightarrow> error + filesystem" where
  "writeFileSync p data fs =
     (if p = [] then Inl (FsError ''ENOENT'' ''open'')
      else (case lookup (tree fs) (resolve fs p) of
              Some (Dir es) \<Rightarrow> Inl (FsError ''EISDIR'' ''open'')
            | Some (File d) \<Rightarrow>
                if ends_with_sep p then Inl (FsError ''ENOTDIR'' ''open'')
                else store_at fs p (File data) ''open''
            | None \<Rightarrow>
                if ends_with_sep p \<or> \<not> parent_is_dir fs p
                then Inl (FsError ''ENOENT'' ''open'')
                else store_at fs p (File data) ''open''))"

definition unlinkSync :: "string \<Rightarrow> filesystem \<Rightarrow> error + filesystem" where
  "unlinkSync p fs =
     (case stat fs p of
        None \<Rightarrow> Inl (FsError ''ENOENT'' ''unlink'')
      | Some (Dir es) \<Rightarrow> Inl (FsError ''EISDIR'' ''unlink'')
      | Some (File c) \<Rightarrow>
          (case remove (tree fs) (resolve fs p) of
             None \<Rightarrow> Inl (FsError ''ENOENT'' ''unlink'')
           | Some r \<Rightarrow> Inr (fs\<lparr>tree := r\<rparr>)))"

text \<open>\<open>fs.lstatSync(p).isDirectory()\<close>.\<close>

definition lstat_isDirectory :: "filesystem \<Rightarrow> string \<Rightarrow> error + bool" where
  "lstat_isDirectory fs p =
     (case stat fs p of None \<Rightarrow> Inl (FsError ''ENOENT'' ''lstat'') | Some n \<Rightarrow> Inr (is_dir n))"

text \<open>
  \<open>glob.sync(pattern, {})\<close>, for the two shapes of pattern that the copy below builds
  from plain paths: a pattern without glob characters matches the path it names if that
  exists; \<open>X/*.*\<close> matches the entries of directory \<open>X\<close> whose name contains a dot and
  does not start with one. Any other pattern is outside the model (\<open>None\<close>). Matches
  are listed in directory order.
\<close>

definition glob_literal :: "string \<Rightarrow> bool" where
  "glob_literal p = (\<forall>c \<in> set p. c \<notin> set (CHR 0x5C # ''*?[{(!#''))"

definition matches_star_dot_star :: "string \<Rightarrow> bool" where
  "matches_star_dot_star n = (CHR ''.'' \<in> set n \<and> hd n \<noteq> CHR ''.'')"

definition glob_sync :: "filesystem \<Rightarrow> string \<Rightarrow> string list option" where
  "glob_sync fs p =
     (if glob_literal p then Some (if existsSync fs p then [p] else [])
      else
        let x = take (length p - 4) p in
        if drop (length p - 4) p = ''/*.*'' \<and> x \<noteq> [] \<and> glob_literal x then
          (case stat fs x of
             Some (Dir es) \<Rightarrow>
               Some (map (\<lambda>e. x @ ''/'' @ fst e) (filter (\<lambda>e. matches_star_dot_star (fst e)) es))
           | _ \<Rightarrow> Some [])
        else None)"

section \<open>The static-files module (\<open>Static\<close>)\<close>

text \<open>
  \<open>t.substring(0, t.lastIndexOf('/'))\<close> (empty when \<open>t\<close> has no separator) and
  \<open>f.substr(f.lastIndexOf('/') + 1)\<close> (all of \<open>f\<close> when it has none).
\<close>

definition before_last_sep :: "string \<Rightarrow> string" where
  "before_last_sep t = (if sep \<in> set t then rev (tl (dropWhile (\<lambda>c. c \<noteq> sep) (rev t))) else [])"

definition after_last_sep :: "string \<Rightarrow> string" where
  "after_last_sep f = rev (takeWhile (\<lambda>c. c \<noteq> sep) (rev f))"

text \<open>
  \<^verbatim>\<open>
  getFileTargt(file, target) {
    if (target.match(/\/$/)) { target += file.substr(file.lastIndexOf('/') + 1); }
    return target;
  }
  \<close>
\<close>

definition getFileTargt :: "string \<Rightarrow> string \<Rightarrow> string" where
  "getFileTargt file target =
     (if ends_with_sep target then target @ after_last_sep file else target)"

text \<open>
  \<^verbatim>\<open>
  validatePathExists(path) {
    path.split('/').reduce((acc, folder) => {
      acc += folder;
      if (!fs.existsSync(acc)) { fs.mkdirSync(acc); }
      return acc + '/';
    }, '');
  }
  \<close>
\<close>

fun validate_reduce :: "string \<Rightarrow> string list \<Rightarrow> filesystem \<Rightarrow> error option \<times> filesystem" where
  "validate_reduce acc [] fs = (None, fs)"
| "validate_reduce acc (folder # rest) fs =
     (if \<not> existsSync fs (acc @ folder) then
        (case mkdirSync (acc @ folder) fs of
           Inl e \<Rightarrow> (Some e, fs)
         | Inr fs' \<Rightarrow> validate_reduce (acc @ folder @ ''/'') rest fs')
      else validate_reduce (acc @ folder @ ''/'') rest fs)"

definition validatePathExists :: "string \<Rightarrow> filesystem \<Rightarrow> error option \<times> filesystem" where
  "validatePathExists path fs = validate_reduce [] (split_sep path) fs"

text \<open>
  \<^verbatim>\<open>
  copy(source, target) {
    let sources = Array.isArray(source) ? source : [source];
    this.validatePathExists(target.substring(0, target.lastIndexOf('/')));
    return Promise.all(sources.map(source => {
      glob.sync(source, {}).forEach(file => {
        let fileTarget = this.getFileTargt(file, target),
          err = fs.copyFileSync(file, fileTarget);
        if (!fs.lstatSync(target).isDirectory() || err) {
          return new Promise((resolve, reject) => (err ? reject(err): resolve()));
        } else {
          return this.copy(file + '/*.*', fileTarget + '/');
        }
      });
    }));
  }
  \<close>
  All the work is synchronous: the callback of \<open>map\<close> returns nothing, so the promise
  returned is always fulfilled, and a failure is an exception thrown out of \<open>copy\<close>.
  \<open>copyFileSync\<close> returns \<open>undefined\<close>, so \<open>err\<close> is never set. The model returns the
  exception thrown, if any, and the file system reached. The calls of \<open>this.copy\<close> from
  inside the loop are the argument \<open>self\<close>; \<open>copy_paths n\<close> follows calls nested at
  most \<open>n\<close> deep. \<open>None\<close> stands for a run the model does not follow (nesting
  beyond the bound, or a glob pattern outside the model).
\<close>

type_synonym completion = "(error option \<times> filesystem) option"

fun copy_files ::
  "(string list \<Rightarrow> string \<Rightarrow> filesystem \<Rightarrow> completion) \<Rightarrow>
   string list \<Rightarrow> string \<Rightarrow> filesystem \<Rightarrow> completion" where
  "copy_files self [] target fs = Some (None, fs)"
| "copy_files self (file # rest) target fs =
     (case copyFileSync file (getFileTargt file target) fs of
        Inl e \<Rightarrow> Some (Some e, fs)
      | Inr fs1 \<Rightarrow>
          (case lstat_isDirectory fs1 target of
             Inl e \<Rightarrow> Some (Some e, fs1)
           | Inr d \<Rightarrow>
               if \<not> d then copy_files self rest target fs1
               else
                 (case self [file @ ''/*.*''] (getFileTargt file target @ ''/'') fs1 of
                    None \<Rightarrow> None
                  | Some (Some e, fs2) \<Rightarrow> Some (Some e, fs2)
                  | Some (None, fs2) \<Rightarrow> copy_files self rest target fs2)))"

fun copy_sources ::
  "(string list \<Rightarrow> string \<Rightarrow> filesystem \<Rightarrow> completion) \<Rightarrow>
   string list \<Rightarrow> string \<Rightarrow> filesystem \<Rightarrow> completion" where
  "copy_sources self [] target fs = Some (None, fs)"
| "copy_sources self (source # rest) target fs =
     (case glob_sync fs source of
        None \<Rightarrow> None
      | Some matches \<Rightarrow>
          (case copy_files self matches target fs of
             None \<Rightarrow> None
           | Some (Some e, fs1) \<Rightarrow> Some (Some e, fs1)
           | Some (None, fs1) \<Rightarrow> copy_sources self rest target fs1))"

definition copy_body ::
  "(string list \<Rightarrow> string \<Rightarrow> filesystem \<Rightarrow> completion) \<Rightarrow>
   string list \<Rightarrow> string \<Rightarrow> filesystem \<Rightarrow> completion" where
  "copy_body self sources target fs =
     (case validatePathExists (before_last_sep target) fs of
        (Some e, fs1) \<Rightarrow> Some (Some e, fs1)
      | (None, fs1) \<Rightarrow> copy_sources self sources target fs1)"

primrec copy_paths :: "nat \<Rightarrow> string list \<Rightarrow> string \<Rightarrow> filesystem \<Rightarrow> completion" where
  "copy_paths 0 = (\<lambda>sources target fs. None)"
| "copy_paths (Suc n) = copy_body (copy_paths n)"

text \<open>
  \<open>copy\<close> on a value of the source: an array is taken as it is, anything else becomes a
  one-element array; \<open>glob.sync\<close> throws a \<open>TypeError\<close> on a pattern that is not a
  string.
\<close>

fun static_copy :: "nat \<Rightarrow> entry \<Rightarrow> string \<Rightarrow> filesystem \<Rightarrow> completion" where
  "static_copy n (ListEntry sources) target fs = copy_paths n sources target fs"
| "static_copy n (StringEntry source) target fs = copy_paths n [source] target fs"
| "static_copy n (ObjectEntry src ext fmt) target fs =
     (case validatePathExists (before_last_sep target) fs of
        (Some e, fs1) \<Rightarrow> Some (Some e, fs1)
      | (None, fs1) \<Rightarrow> Some (Some (TypeError ''glob pattern string required''), fs1))"

section \<open>The stylesheet module (css.js)\<close>

text \<open>
  The libraries the module calls are parameters: \<open>mapper.load\<close> and \<open>mapper.map\<close> with
  the module's import pattern (\<open>mapper.js\<close> is not among the sources),
  \<open>nodeSass.renderSync\<close>, the \<open>process\<close> of postcss with autoprefixer, and \<open>CleanCSS\<close>.
  Each either returns or throws; \<open>process\<close> returns a promise.
\<close>

record css_env =
  mapper_load :: "entry \<Rightarrow> error + fileSet"
  mapper_map :: "string \<Rightarrow> error + string list"
  sass_render :: "string \<Rightarrow> error + string"
  postcss_process :: "string \<Rightarrow> string promise"
  cleancss_minify :: "string \<Rightarrow> error + string"

text \<open>
  The state the modules share: the handler fields, what each handler of the user throws
  when it is called with an error (\<open>None\<close> when it returns), the deliveries made to
  handlers so far, and the disk.
\<close>

record state =
  build_handleError :: handler
  css_handleError :: handler
  html_handleError :: handler
  handler_throws :: "nat \<Rightarrow> error \<Rightarrow> error option"
  delivered :: "(handler \<times> error) list"
  disk :: filesystem

text \<open>
  Calling a handler: the delivery is recorded, and the call returns or throws.
\<close>

definition handler_result :: "state \<Rightarrow> handler \<Rightarrow> error \<Rightarrow> error option" where
  "handler_result st h e =
     (case h of
        DefaultHandleError \<Rightarrow> None
      | CssConsoleLog \<Rightarrow> None
      | UserHandler n \<Rightarrow> handler_throws st n e)"

definition call_handler :: "handler \<Rightarrow> error \<Rightarrow> state \<Rightarrow> error option \<times> state" where
  "call_handler h e st = (handler_result st h e, st\<lparr>delivered := delivered st @ [(h, e)]\<rparr>)"

text \<open>
  A \<open>catch\<close> callback that calls a handler and then returns \<open>v\<close>: the promise of the
  \<open>catch\<close> is fulfilled with \<open>v\<close>, or rejected with what the handler throws.
\<close>

definition handler_callback :: "handler \<Rightarrow> 'a \<Rightarrow> error \<Rightarrow> state \<Rightarrow> 'a promise \<times> state" where
  "handler_callback h v err st =
     (case call_handler h err st of
        (None, st') \<Rightarrow> (Fulfilled v, st')
      | (Some thrown, st') \<Rightarrow> (Rejected thrown, st'))"

definition css_loadFile :: "css_env \<Rightarrow> entry \<Rightarrow> fileSet promise" where
  "css_loadFile env fileName = promise_of (mapper_load env fileName)"

definition css_sass :: "css_env \<Rightarrow> string \<Rightarrow> string promise" where
  "css_sass env scss = promise_of (sass_render env scss)"

definition css_prefix :: "css_env \<Rightarrow> string \<Rightarrow> string promise" where
  "css_prefix env css = postcss_process env css"

definition css_minify :: "css_env \<Rightarrow> string \<Rightarrow> string promise" where
  "css_minify env css = promise_of (cleancss_minify env css)"

text \<open>
  \<^verbatim>\<open>
  compile(fileName) {
    return this.loadFile(fileName)
    .then(fileSet => {
      if(fileSet.content.length === 0) { return fileSet; }
      return this.sass(fileSet.content)
      .catch(err => { this.handleError(err); return ''; })
      .then(this.prefix, Array.isArray(fileName) ? fileName[0]: fileName)
      .then(this.minify)
      .then(compiledAndMinified => {
        fileSet.content = compiledAndMinified;
        return fileSet;
      });
    })
    .catch(err => {
      this.handleError(err);
      return { files: [], content: '' };
    });
  }
  \<close>
  The second argument of \<open>then(this.prefix, ...)\<close> is a string, not a function, and is
  ignored. When the handler throws inside the inner \<open>catch\<close>, the rejection skips the
  three \<open>then\<close> and reaches the outer \<open>catch\<close>, which calls the handler again; when it
  throws there, \<open>compile\<close> is rejected.
\<close>

definition css_compile :: "css_env \<Rightarrow> entry \<Rightarrow> state \<Rightarrow> fileSet promise \<times> state" where
  "css_compile env fileName st0 =
     promise_catch
       (promise_then (css_loadFile env fileName, st0)
          (\<lambda>fileSet st.
             if length (content fileSet) = 0 then (Fulfilled fileSet, st)
             else
               promise_then
                 (promise_then
                    (promise_then
                       (promise_catch (css_sass env (content fileSet), st)
                          (\<lambda>err st. handler_callback (css_handleError st) [] err st))
                       (\<lambda>css st. (css_prefix env css, st)))
                    (\<lambda>css st. (css_minify env css, st)))
                 (\<lambda>compiledAndMinified st.
                    (Fulfilled (fileSet\<lparr>content := compiledAndMinified\<rparr>), st))))
       (\<lambda>err st. handler_callback (css_handleError st) \<lparr>files = [], content = []\<rparr> err st)"

text \<open>
  \<^verbatim>\<open>
  mapFile(fileName) {
    return new Promise(resolve => resolve(mapper.map(fileName, importPattern)));
  }
  onError(handler) { this.handleError = handler; mapper.onError(handler); }
  \<close>
  \<open>mapFile\<close> declares one parameter: a second argument passed by a caller is dropped.
\<close>

definition css_mapFile :: "css_env \<Rightarrow> string \<Rightarrow> string list option \<Rightarrow> string list promise" where
  "css_mapFile env fileName external = promise_of (mapper_map env fileName)"

definition css_onError :: "handler \<Rightarrow> state \<Rightarrow> state" where
  "css_onError h st = st\<lparr>css_handleError := h\<rparr>"

section \<open>The script module (js.js)\<close>

text \<open>
  Parameters: \<open>rollup.rollup({input, external})\<close> followed by \<open>generate({format})\<close>,
  giving the modules and the code; \<open>babel.transform\<close>; \<open>UglifyJS.minify\<close> (whose
  \<open>error\<close> field becomes a rejection); and \<open>mapNested\<close> (\<open>map-nested.js\<close> is not among the
  sources) with the module's import pattern.
\<close>

record js_env =
  rollup_generate :: "entry \<Rightarrow> string list \<Rightarrow> string \<Rightarrow> fileSet promise"
  babel_transform :: "string \<Rightarrow> error + string"
  uglify_minify :: "string \<Rightarrow> error + string"
  mapNested :: "string \<Rightarrow> string list \<Rightarrow> error + string list"

definition defaultFormat :: string where
  "defaultFormat = ''cjs''"

fun js_filenames :: "entry \<Rightarrow> entry list" where
  "js_filenames (ListEntry fs) = map StringEntry fs"
| "js_filenames (ObjectEntry (ListEntry fs) ext fmt) = map StringEntry fs"
| "js_filenames (ObjectEntry src ext fmt) = [src]"
| "js_filenames (StringEntry s) = [StringEntry s]"

fun js_external :: "entry \<Rightarrow> string list" where
  "js_external (ObjectEntry src (Some ext) fmt) = ext"
| "js_external _ = []"

fun js_format :: "entry \<Rightarrow> string" where
  "js_format (ObjectEntry src ext (Some fmt)) = (if fmt = [] then defaultFormat else fmt)"
| "js_format _ = defaultFormat"

text \<open>
  \<open>loadFiles\<close>: \<open>Promise.all\<close> over \<open>loadFile\<close> of each input, then the concatenation of
  the file lists and of the contents.
\<close>

definition js_loadFiles :: "js_env \<Rightarrow> entry list \<Rightarrow> string \<Rightarrow> string list \<Rightarrow> fileSet promise" where
  "js_loadFiles env input fmt external =
     (case promise_all (map (\<lambda>f. rollup_generate env f external fmt) input) of
        Rejected e \<Rightarrow> Rejected e
      | Fulfilled res \<Rightarrow>
          Fulfilled (foldl (\<lambda>memo item. \<lparr>files = files memo @ files item,
                                           content = content memo @ content item\<rparr>)
                           \<lparr>files = [], content = []\<rparr> res))"

text \<open>
  \<^verbatim>\<open>
  return this.loadFiles(filenames, format, external)
    .then(fileSet => {
      if(fileSet.content.length === 0) { return fileSet; }
      return this.transpile(fileSet.content)
        .then(this.minify)
        .then(transpiledAndUglified => {
          fileSet.content = transpiledAndUglified;
          return fileSet;
        });
    });
  \<close>
  There is no \<open>catch\<close>: a rejection of any step is the rejection of \<open>compile\<close>.
\<close>

definition js_compile :: "js_env \<Rightarrow> entry \<Rightarrow> fileSet promise" where
  "js_compile env options =
     (case js_loadFiles env (js_filenames options) (js_format options) (js_external options) of
        Rejected e \<Rightarrow> Rejected e
      | Fulfilled fileSet \<Rightarrow>
          if length (content fileSet) = 0 then Fulfilled fileSet
          else (case promise_of (babel_transform env (content fileSet)) of
                  Rejected e \<Rightarrow> Rejected e
                | Fulfilled code \<Rightarrow>
                    (case promise_of (uglify_minify env code) of
                       Rejected e \<Rightarrow> Rejected e
                     | Fulfilled transpiledAndUglified \<Rightarrow>
                         Fulfilled (fileSet\<lparr>content := transpiledAndUglified\<rparr>))))"

text \<open>
  \<^verbatim>\<open>
  mapFile(fileName, external = []) {
    return new Promise(resolve => resolve(mapNested(fileName, importPattern, external)));
  }
  \<close>
  The module exports no \<open>onError\<close>.
\<close>

definition js_mapFile :: "js_env \<Rightarrow> string \<Rightarrow> string list option \<Rightarrow> string list promise" where
  "js_mapFile env fileName external =
     promise_of (mapNested env fileName (case external of None \<Rightarrow> [] | Some ext \<Rightarrow> ext))"

section \<open>The orchestrator (build.js)\<close>

text \<open>
  The registry \<open>types\<close>, in its order: \<open>/\.js$/\<close>, \<open>/\.css$/\<close>, \<open>/\.html$/\<close>,
  \<open>/\/$/\<close>. \<open>getFileType\<close> takes the first whose pattern matches and falls back on
  \<open>files\<close>.
\<close>

datatype fileType = JsType | CssType | HtmlType | FilesType

definition getFileType :: "string \<Rightarrow> fileType" where
  "getFileType fileName =
     (if suffix ''.js'' fileName then JsType
      else if suffix ''.css'' fileName then CssType
      else if suffix ''.html'' fileName then HtmlType
      else if suffix ''/'' fileName then FilesType
      else FilesType)"

definition WATCH_TIMEOUT :: nat where
  "WATCH_TIMEOUT = 2000"

text \<open>
  The collaborators of build.js. \<open>./html.js\<close> and \<open>./files.js\<close> are not among the sources:
  what build.js calls on them (\<open>html.compile\<close>, \<open>html.mapFile\<close>, \<open>files.copy\<close>,
  \<open>files.addPath\<close>, \<open>files.mapFile\<close>) are parameters. A call either throws or returns
  a promise; the two calls on \<open>files\<close> that change the disk return the disk they leave.
  The backends work asynchronously: \<open>settle_time\<close> gives, for the entry at each position
  of a map, the time at which the promise of its build step settles.
\<close>

record world =
  css :: css_env
  js :: js_env
  html_compile :: "entry \<Rightarrow> error + fileSet promise"
  html_mapFile :: "string \<Rightarrow> string list option \<Rightarrow> string list promise"
  files_copy :: "entry \<Rightarrow> string \<Rightarrow> filesystem \<Rightarrow> (error + unit promise) \<times> filesystem"
  files_addPath :: "string \<Rightarrow> filesystem \<Rightarrow> error option \<times> filesystem"
  files_mapFile :: "filesystem \<Rightarrow> string \<Rightarrow> string list promise"
  settle_time :: "nat \<Rightarrow> nat"

text \<open>
  A pending promise: what its callbacks do, and the promise they leave, once it settles.
  The callbacks run on the state of that moment.
\<close>

type_synonym 'a task = "state \<Rightarrow> 'a promise \<times> state"

text \<open>
  \<open>fileTypeDef.handler.compile(sourceFile)\<close> for the three compiling types. The call
  returns a pending promise (or throws); the handler of the stylesheet module is called
  from the callbacks.
\<close>

definition handler_compile :: "world \<Rightarrow> fileType \<Rightarrow> entry \<Rightarrow> error + fileSet task" where
  "handler_compile w t sourceFile =
     (case t of
        CssType \<Rightarrow> Inr (css_compile (css w) sourceFile)
      | JsType \<Rightarrow> Inr (\<lambda>st. (js_compile (js w) sourceFile, st))
      | HtmlType \<Rightarrow>
          (case html_compile w sourceFile of
             Inl e \<Rightarrow> Inl e
           | Inr p \<Rightarrow> Inr (\<lambda>st. (p, st)))
      | FilesType \<Rightarrow> Inl (TypeError ''fileTypeDef.handler.compile is not a function''))"

text \<open>\<open>getFileType(entry).handler.mapFile\<close>, called as \<open>mapFunc(file, external)\<close>.\<close>

definition handler_mapFile ::
  "world \<Rightarrow> fileType \<Rightarrow> filesystem \<Rightarrow> string \<Rightarrow> string list option \<Rightarrow> string list promise" where
  "handler_mapFile w t fs file external =
     (case t of
        CssType \<Rightarrow> css_mapFile (css w) file external
      | JsType \<Rightarrow> js_mapFile (js w) file external
      | HtmlType \<Rightarrow> html_mapFile w file external
      | FilesType \<Rightarrow> files_mapFile w fs file)"

text \<open>
  \<^verbatim>\<open>
  function removeFileIfRedundant(file, entries, destPath) {
    if (
      !entries.find(entry => {
        if (entry === file) { return existsSync(entry); }
        else if (entry.substring(entry.length - 1) === '/') {
          return existsSync(`${entry}${file}`);
        }
        return false;
      }) &&
      existsSync(`${destPath}${file}`)
    ) { unlinkSync(`${destPath}${file}`); }
  }
  \<close>
  \<open>entries\<close> is whatever the caller passes. Only an array has \<open>find\<close>; on a string or
  on a plain object \<open>entries.find\<close> is \<open>undefined\<close> and the call throws.
\<close>

definition entry_matches :: "filesystem \<Rightarrow> string \<Rightarrow> string \<Rightarrow> bool" where
  "entry_matches fs file entry =
     (if entry = file then existsSync fs entry
      else if ends_with_sep entry then existsSync fs (entry @ file)
      else False)"

fun removeFileIfRedundant :: "string \<Rightarrow> entry \<Rightarrow> string \<Rightarrow> filesystem \<Rightarrow> error + filesystem" where
  "removeFileIfRedundant file (ListEntry entries) destPath fs =
     (if find (entry_matches fs file) entries = None \<and> existsSync fs (destPath @ file)
      then unlinkSync (destPath @ file) fs
      else Inr fs)"
| "removeFileIfRedundant file (StringEntry s) destPath fs =
     Inl (TypeError ''entries.find is not a function'')"
| "removeFileIfRedundant file (ObjectEntry src ext fmt) destPath fs =
     Inl (TypeError ''entries.find is not a function'')"

text \<open>
  \<^verbatim>\<open>
  function writeToFile(targetPath, targetFileName, sourceFile, fileTypeDef, triggeredByFile) {
    let absoluteTarget = getAbsolutePath(targetPath, targetFileName);
    if (fileTypeDef.id === 'files') {
      if (triggeredByFile !== undefined) {
        removeFileIfRedundant(triggeredByFile, sourceFile, `${targetPath}/${targetFileName}`);
      }
      return files.copy(sourceFile, getAbsolutePath(targetPath, targetFileName));
    } else {
      return fileTypeDef.handler.compile(sourceFile).then(response => {
        files.addPath(absoluteTarget.substring(0, absoluteTarget.lastIndexOf('/')));
        writeFileSync(absoluteTarget, response.content);
        return response;
      });
    }
  }
  \<close>
  The call does the synchronous part (the removal and the copy of a pass-through output)
  and returns a pending promise, or throws. The promise carries the response of a compile
  (\<open>Some\<close>) or nothing; the \<open>then\<close> callback that writes the artifact runs when the
  compile has settled.
\<close>

definition write_response ::
  "world \<Rightarrow> string \<Rightarrow> fileSet \<Rightarrow> state \<Rightarrow> fileSet option promise \<times> state" where
  "write_response w absoluteTarget response st =
     (case files_addPath w (before_last_sep absoluteTarget) (disk st) of
        (Some e, d) \<Rightarrow> (Rejected e, st\<lparr>disk := d\<rparr>)
      | (None, d) \<Rightarrow>
          (case writeFileSync absoluteTarget (content response) d of
             Inl e \<Rightarrow> (Rejected e, st\<lparr>disk := d\<rparr>)
           | Inr d' \<Rightarrow> (Fulfilled (Some response), st\<lparr>disk := d'\<rparr>)))"

definition writeToFile ::
  "world \<Rightarrow> string \<Rightarrow> string \<Rightarrow> entry \<Rightarrow> fileType \<Rightarrow> string option \<Rightarrow> state \<Rightarrow>
   (error + fileSet option task) \<times> state" where
  "writeToFile w targetPath targetFileName sourceFile fileTypeDef triggeredByFile st =
     (let absoluteTarget = getAbsolutePath (workdir (disk st)) targetPath targetFileName in
      if fileTypeDef = FilesType then
        (case (case triggeredByFile of
                 None \<Rightarrow> Inr (disk st)
               | Some file \<Rightarrow>
                   removeFileIfRedundant file sourceFile
                     (targetPath @ ''/'' @ targetFileName) (disk st)) of
           Inl e \<Rightarrow> (Inl e, st)
         | Inr d \<Rightarrow>
             (case files_copy w sourceFile absoluteTarget d of
                (Inl e, d') \<Rightarrow> (Inl e, st\<lparr>disk := d'\<rparr>)
              | (Inr (Rejected e), d') \<Rightarrow> (Inr (\<lambda>s. (Rejected e, s)), st\<lparr>disk := d'\<rparr>)
              | (Inr (Fulfilled u), d') \<Rightarrow> (Inr (\<lambda>s. (Fulfilled None, s)), st\<lparr>disk := d'\<rparr>)))
      else
        (case handler_compile w fileTypeDef sourceFile of
           Inl e \<Rightarrow> (Inl e, st)
         | Inr compiling \<Rightarrow>
             (Inr (\<lambda>s. promise_then (compiling s) (write_response w absoluteTarget)), st)))"

text \<open>
  The map description: \<open>source\<close>, \<open>target\<close> and \<open>entries\<close>, each possibly absent; the
  keys of \<open>entries\<close> in the order \<open>Object.keys\<close> lists them. \<open>once\<close> and \<open>live\<close> take
  the description itself or the name of a file holding it.
\<close>

record appMap =
  map_source :: "string option"
  map_target :: "string option"
  map_entries :: "(string \<times> entry) list option"

datatype appMapArg = MapFile string | MapObject appMap

text \<open>\<open>appMap.source || ''\<close>.\<close>

definition or_empty :: "string option \<Rightarrow> string" where
  "or_empty s = (case s of None \<Rightarrow> [] | Some v \<Rightarrow> v)"

text \<open>
  \<^verbatim>\<open>
  function readMapFile(mapFile) {
    if (!existsSync(fileName)) { throw new Errors.NotFound('map.json', fileName); }
    return JSON.parse(readFileSync(fileName, 'utf-8'));
  }
  \<close>
  The parameter is \<open>mapFile\<close>; \<open>fileName\<close> is declared nowhere, so evaluating the
  condition throws.
\<close>

definition readMapFile :: "string \<Rightarrow> filesystem \<Rightarrow> error + appMap" where
  "readMapFile mapFile fs = Inl (ReferenceError ''fileName'')"

text \<open>
  \<^verbatim>\<open>
  function once(appMap, handleError = defaultHandleError) {
    if (typeof appMap === 'string') { appMap = readMapFile(appMap); }
    let source = appMap.source || '', target = appMap.target || '';
    if (appMap.entries === undefined) {
      handleError(new Errors.BadInput(mapFile, 'Missing `source` property'));
    }
    return Promise.all(
      Object.keys(appMap.entries).map(entry =>
        writeToFile(target, entry, getMappedEntries(source, appMap.entries[entry]),
                    getFileType(entry)
        ).catch(handleError)
      )
    );
  }
  \<close>
  In \<open>once\<close> no identifier \<open>mapFile\<close> is in scope (it is the parameter of
  \<open>readMapFile\<close> only), so the argument of \<open>new Errors.BadInput\<close> throws a
  \<open>ReferenceError\<close> before \<open>handleError\<close> is called.

  \<open>map\<close> calls \<open>writeToFile\<close> for every entry in turn, synchronously, and puts
  \<open>catch(handleError)\<close> on the promise it returns; an exception thrown by \<open>writeToFile\<close>
  itself leaves \<open>map\<close> and \<open>once\<close>, the entries after it are not started. The
  callbacks of the promises run afterwards, as the promises settle: the chain of each
  entry is run as one step, in the order of \<open>settle_time\<close> (entries that settle at the
  same time in entry order). A rejected promise goes to \<open>handleError\<close>; the promise of
  \<open>catch\<close> is fulfilled with what the handler returns, or rejected with what it throws.
  \<open>Promise.all\<close> takes the promises in entry order. The state returned is the one left
  when every promise that was created has settled, also when \<open>once\<close> has thrown.
\<close>

fun start_entries ::
  "world \<Rightarrow> string \<Rightarrow> string \<Rightarrow> (string \<times> entry) list \<Rightarrow> state \<Rightarrow>
   error option \<times> fileSet option task list \<times> state" where
  "start_entries w src tgt [] st = (None, [], st)"
| "start_entries w src tgt (e # rest) st =
     (case writeToFile w tgt (fst e) (getMappedEntries (workdir (disk st)) src (snd e))
             (getFileType (fst e)) None st of
        (Inl err, st1) \<Rightarrow> (Some err, [], st1)
      | (Inr pending, st1) \<Rightarrow>
          (case start_entries w src tgt rest st1 of
             (thrown, tasks, st2) \<Rightarrow> (thrown, pending # tasks, st2)))"

text \<open>\<open>p.catch(handleError)\<close> on a pending promise.\<close>

definition catch_handleError :: "handler \<Rightarrow> fileSet option task \<Rightarrow> fileSet option task" where
  "catch_handleError handleError pending =
     (\<lambda>s. promise_catch (pending s) (handler_callback handleError None))"

text \<open>
  The positions of \<open>n\<close> pending promises in the order in which they settle, and the run
  of their callbacks in that order, each result kept with its position.
\<close>

definition settling_order :: "world \<Rightarrow> nat \<Rightarrow> nat list" where
  "settling_order w n = sort_key (settle_time w) [0..<n]"

fun settle :: "'a task list \<Rightarrow> nat list \<Rightarrow> state \<Rightarrow> (nat \<times> 'a promise) list \<times> state" where
  "settle tasks [] st = ([], st)"
| "settle tasks (i # order) st =
     (case (tasks ! i) st of
        (q, st1) \<Rightarrow>
          (case settle tasks order st1 of
             (settled, st2) \<Rightarrow> ((i, q) # settled, st2)))"

definition in_entry_order :: "(nat \<times> 'a promise) list \<Rightarrow> 'a promise list" where
  "in_entry_order settled = map snd (sort_key fst settled)"

definition once_entries ::
  "world \<Rightarrow> string \<Rightarrow> string \<Rightarrow> handler \<Rightarrow> (string \<times> entry) list \<Rightarrow> state \<Rightarrow>
   (error + fileSet option promise list) \<times> state" where
  "once_entries w src tgt handleError es st =
     (case start_entries w src tgt es st of
        (thrown, tasks, st1) \<Rightarrow>
          (case settle (map (catch_handleError handleError) tasks)
                  (settling_order w (length tasks)) st1 of
             (settled, st2) \<Rightarrow>
               (case thrown of
                  Some err \<Rightarrow> (Inl err, st2)
                | None \<Rightarrow> (Inr (in_entry_order settled), st2))))"

definition once_map ::
  "world \<Rightarrow> appMap \<Rightarrow> handler \<Rightarrow> state \<Rightarrow> (error + fileSet option list promise) \<times> state" where
  "once_map w m handleError st =
     (case map_entries m of
        None \<Rightarrow> (Inl (ReferenceError ''mapFile''), st)
      | Some es \<Rightarrow>
          (case once_entries w (or_empty (map_source m)) (or_empty (map_target m))
                  handleError es st of
             (Inl err, st') \<Rightarrow> (Inl err, st')
           | (Inr ps, st') \<Rightarrow> (Inr (promise_all ps), st')))"

definition once ::
  "world \<Rightarrow> appMapArg \<Rightarrow> handler \<Rightarrow> state \<Rightarrow> (error + fileSet option list promise) \<times> state" where
  "once w arg handleError st =
     (case arg of
        MapFile mapFile \<Rightarrow>
          (case readMapFile mapFile (disk st) of
             Inl err \<Rightarrow> (Inl err, st)
           | Inr m \<Rightarrow> once_map w m handleError st)
      | MapObject m \<Rightarrow> once_map w m handleError st)"

text \<open>
  A watch registration: the object \<open>{ file, options, watcher }\<close> that \<open>getWatchers\<close>
  returns, with what the closure of its \<open>raw\<close> listener holds: \<open>rootFile\<close>, \<open>output\<close>,
  \<open>target\<close> and \<open>timeOut\<close>. A pending timer is its due time and the \<open>path\<close> of the
  event that started it.
\<close>

record watcher =
  w_file :: string
  w_options :: "entry option"
  w_rootFile :: string
  w_output :: string
  w_target :: string
  w_timeOut :: "(nat \<times> string option) option"

definition getWatchers ::
  "string \<Rightarrow> string list \<Rightarrow> string \<Rightarrow> string \<Rightarrow> entry option \<Rightarrow> handler \<Rightarrow> watcher list" where
  "getWatchers rootFile results output tgt options handleError =
     map (\<lambda>file. \<lparr>w_file = file, w_options = options, w_rootFile = rootFile,
                   w_output = output, w_target = tgt, w_timeOut = None\<rparr>) results"

text \<open>
  \<^verbatim>\<open>
  function getWatcherPromises(output, files, mapFunc, target, handleError) {
    let options, external;
    if (files.source) { options = files; external = options.external; files = files.source; }
    return files.map(file =>
      mapFunc(file, external).then(results =>
        getWatchers(file, results, output, target, options, handleError)));
  }
  \<close>
  There is no \<open>catch\<close> on these promises.
\<close>

fun getWatcherPromises ::
  "world \<Rightarrow> string \<Rightarrow> entry \<Rightarrow> fileType \<Rightarrow> string \<Rightarrow> handler \<Rightarrow> filesystem \<Rightarrow>
   error + watcher list promise list" where
  "getWatcherPromises w output (ObjectEntry (ListEntry fs) ext fmt) t tgt handleError d =
     Inr (map (\<lambda>file.
            (case handler_mapFile w t d file ext of
               Rejected e \<Rightarrow> Rejected e
             | Fulfilled results \<Rightarrow>
                 Fulfilled (getWatchers file results output tgt
                              (Some (ObjectEntry (ListEntry fs) ext fmt)) handleError))) fs)"
| "getWatcherPromises w output (ListEntry fs) t tgt handleError d =
     Inr (map (\<lambda>file.
            (case handler_mapFile w t d file None of
               Rejected e \<Rightarrow> Rejected e
             | Fulfilled results \<Rightarrow>
                 Fulfilled (getWatchers file results output tgt None handleError))) fs)"
| "getWatcherPromises w output other t tgt handleError d =
     Inl (TypeError ''files.map is not a function'')"

text \<open>
  \<^verbatim>\<open>
  function live(appMap, handleError = defaultHandleError) {
    if (typeof appMap === 'string') { appMap = readMapFile(appMap); }
    let target = appMap.target || '',
      entries = getAbsolutePathes(appMap.source || '', appMap.entries);
    return Promise.all(
      Array.from(entries.keys())
        .map(entry => getWatcherPromises(entry, entries.get(entry),
               getFileType(entry).handler.mapFile, target, handleError))
        .reduce((acc, promise) => acc.concat(promise), [])
    ).then(watcheArrays => watcheArrays.reduce((acc, watches) => acc.concat(watches), []));
  }
  \<close>
  \<open>getAbsolutePathes\<close> resolves every entry with \<open>getMappedEntries\<close>;
  \<open>Object.keys(undefined)\<close> throws.
\<close>

fun live_entries ::
  "world \<Rightarrow> string \<Rightarrow> handler \<Rightarrow> filesystem \<Rightarrow> (string \<times> entry) list \<Rightarrow>
   error + watcher list promise list" where
  "live_entries w tgt handleError d [] = Inr []"
| "live_entries w tgt handleError d (e # rest) =
     (case getWatcherPromises w (fst e) (snd e) (getFileType (fst e)) tgt handleError d of
        Inl err \<Rightarrow> Inl err
      | Inr ps \<Rightarrow>
          (case live_entries w tgt handleError d rest of
             Inl err \<Rightarrow> Inl err
           | Inr qs \<Rightarrow> Inr (ps @ qs)))"

definition getAbsolutePathes :: "string \<Rightarrow> string \<Rightarrow> (string \<times> entry) list \<Rightarrow> (string \<times> entry) list" where
  "getAbsolutePathes wd path es = map (\<lambda>e. (fst e, getMappedEntries wd path (snd e))) es"

definition live_map :: "world \<Rightarrow> appMap \<Rightarrow> handler \<Rightarrow> state \<Rightarrow> error + watcher list promise" where
  "live_map w m handleError st =
     (case map_entries m of
        None \<Rightarrow> Inl (TypeError ''Cannot convert undefined or null to object'')
      | Some es \<Rightarrow>
          (case live_entries w (or_empty (map_target m)) handleError (disk st)
                  (getAbsolutePathes (workdir (disk st)) (or_empty (map_source m)) es) of
             Inl err \<Rightarrow> Inl err
           | Inr ps \<Rightarrow>
               Inr (case promise_all ps of
                      Rejected e \<Rightarrow> Rejected e
                    | Fulfilled watcheArrays \<Rightarrow> Fulfilled (concat watcheArrays))))"

definition live :: "world \<Rightarrow> appMapArg \<Rightarrow> handler \<Rightarrow> state \<Rightarrow> error + watcher list promise" where
  "live w arg handleError st =
     (case arg of
        MapFile mapFile \<Rightarrow>
          (case readMapFile mapFile (disk st) of
             Inl err \<Rightarrow> Inl err
           | Inr m \<Rightarrow> live_map w m handleError st)
      | MapObject m \<Rightarrow> live_map w m handleError st)"

text \<open>
  The \<open>raw\<close> listener of a watcher and the callback of its timer:
  \<^verbatim>\<open>
  .on('raw', (event, path, details) => {
    if (!timeOut) {
      timeOut = setTimeout(() => {
        logged(label, writeToFile.bind({}, target, output, options || rootFile,
                                       getFileType(output), path));
        timeOut = null;
      }, WATCH_TIMEOUT);
    }
  })
  \<close>
  \<open>logged\<close> calls the bound \<open>writeToFile\<close> and drops the promise it returns. An
  exception of that call leaves the callback before \<open>timeOut = null\<close>. The callbacks of
  the dropped promise run when the callback of the timer has returned; nothing catches its
  rejection.
\<close>

definition on_raw :: "nat \<Rightarrow> string option \<Rightarrow> watcher \<Rightarrow> watcher" where
  "on_raw now path wt =
     (if w_timeOut wt = None then wt\<lparr>w_timeOut := Some (now + WATCH_TIMEOUT, path)\<rparr> else wt)"

definition rebuild_source :: "watcher \<Rightarrow> entry" where
  "rebuild_source wt = (case w_options wt of Some opts \<Rightarrow> opts | None \<Rightarrow> StringEntry (w_rootFile wt))"

definition on_timeout :: "world \<Rightarrow> string option \<Rightarrow> watcher \<Rightarrow> state \<Rightarrow> error option \<times> watcher \<times> state" where
  "on_timeout w path wt st =
     (case writeToFile w (w_target wt) (w_output wt) (rebuild_source wt)
             (getFileType (w_output wt)) path st of
        (Inl err, st') \<Rightarrow> (Some err, wt, st')
      | (Inr pending, st') \<Rightarrow> (None, wt\<lparr>w_timeOut := None\<rparr>, snd (pending st')))"

text \<open>
  One watcher under the event loop. A run holds the watcher, the state and the number
  of rebuilds started so far. When the clock reaches \<open>now\<close>, a timer that is due fires;
  a raw event at time \<open>t\<close> is delivered after the timers due at \<open>t\<close>. An exception
  that leaves a timer callback is uncaught: the run stops with it.
\<close>

type_synonym run = "watcher \<times> state \<times> nat"

definition advance :: "world \<Rightarrow> nat \<Rightarrow> run \<Rightarrow> error option \<times> run" where
  "advance w now r =
     (case r of (wt, st, n) \<Rightarrow>
        (case w_timeOut wt of
           None \<Rightarrow> (None, r)
         | Some (due, path) \<Rightarrow>
             if due \<le> now then
               (case on_timeout w path wt st of (err, wt', st') \<Rightarrow> (err, (wt', st', Suc n)))
             else (None, r)))"

fun run_events :: "world \<Rightarrow> (nat \<times> string option) list \<Rightarrow> run \<Rightarrow> error option \<times> run" where
  "run_events w [] r = (None, r)"
| "run_events w (ev # evs) r =
     (case advance w (fst ev) r of
        (Some err, r') \<Rightarrow> (Some err, r')
      | (None, (wt, st, n)) \<Rightarrow> run_events w evs (on_raw (fst ev) (snd ev) wt, st, n))"

definition run_until :: "world \<Rightarrow> (nat \<times> string option) list \<Rightarrow> nat \<Rightarrow> run \<Rightarrow> error option \<times> run" where
  "run_until w evs now r =
     (case run_events w evs r of
        (Some err, r') \<Rightarrow> (Some err, r')
      | (None, r') \<Rightarrow> advance w now r')"

text \<open>
  \<^verbatim>\<open>
  class Build {
    constructor() { this.handleError = defaultHandleError; }
    once(appMap) { return once(appMap); }
    live(appMap) { return live(appMap); }
    onError(handler) {
      this.handleError = handler;
      css.onError(handler);
      html.onError(handler);
      js.onError(handler);
    }
  }
  \<close>
  \<open>once\<close> and \<open>live\<close> are called with one argument, so their \<open>handleError\<close> is
  \<open>defaultHandleError\<close>. js.js defines no \<open>onError\<close>: the last statement of \<open>onError\<close>
  throws.
\<close>

text \<open>
  Modelled from the spec: \<open>html.onError\<close> (html.js is not among the sources). The spec
  says the handler is propagated to every backend, so the call stores the handler.
\<close>

definition html_onError :: "handler \<Rightarrow> state \<Rightarrow> state" where
  "html_onError h st = st\<lparr>html_handleError := h\<rparr>"

definition Build_once ::
  "world \<Rightarrow> appMapArg \<Rightarrow> state \<Rightarrow> (error + fileSet option list promise) \<times> state" where
  "Build_once w arg st = once w arg DefaultHandleError st"

definition Build_live :: "world \<Rightarrow> appMapArg \<Rightarrow> state \<Rightarrow> error + watcher list promise" where
  "Build_live w arg st = live w arg DefaultHandleError st"

definition Build_onError :: "handler \<Rightarrow> state \<Rightarrow> error option \<times> state" where
  "Build_onError h st =
     (Some (TypeError ''js.onError is not a function''),
      html_onError h (css_onError h (st\<lparr>build_handleError := h\<rparr>)))"

text \<open>
  The state when the modules have been loaded and \<open>new Build()\<close> has run, with handlers
  of the user that return.
\<close>

definition initial_state :: "filesystem \<Rightarrow> handler \<Rightarrow> state" where
  "initial_state fs html_initial =
     \<lparr>build_handleError = DefaultHandleError, css_handleError = CssConsoleLog,
      html_handleError = html_initial, handler_throws = (\<lambda>n e. None),
      delivered = [], disk = fs\<rparr>"

section \<open>Reference discovery\<close>

text \<open>
  The reference mapper (\<open>mapper.js\<close>, \<open>map-nested.js\<close>) is not among the sources; this
  section models it from section 4.2 of the spec. Reading a file and matching the pattern
  are abstracted to a table that gives, for each file, the paths it references, already
  resolved and in match order.
\<close>

text \<open>
  Modelled from the spec: the extraction step of the missing mapper, "scans for all
  substrings matching pattern, extracting the referenced path from each match". A file
  without an entry in the table references nothing.
\<close>

definition references :: "(string \<times> string list) list \<Rightarrow> string \<Rightarrow> string list" where
  "references g f = (case map_of g f of None \<Rightarrow> [] | Some rs \<Rightarrow> rs)"

text \<open>Every path that the table mentions as a reference.\<close>

definition all_references :: "(string \<times> string list) list \<Rightarrow> string set" where
  "all_references g = set (concat (map snd g))"

text \<open>
  Modelled from the spec: the traversal of the missing mapper. "For each extracted path
  not present in external and not already visited: ... add it to the result set, and
  recurse into it", depth first in match order, with a visited set scoped to the
  invocation. The arguments are the references still to be looked at and the files
  visited so far, in discovery order.
\<close>

function discover_from ::
  "(string \<times> string list) list \<Rightarrow> string list \<Rightarrow> string list \<Rightarrow> string list \<Rightarrow> string list" where
  "discover_from g ext [] visited = visited"
| "discover_from g ext (f # stack) visited =
     (if f \<in> set ext \<or> f \<in> set visited then discover_from g ext stack visited
      else discover_from g ext (references g f @ stack) (visited @ [f]))"
  by pat_completeness auto
termination
proof (relation "measures [\<lambda>(g, ext, stack, visited). card ((set stack \<union> all_references g) - set visited),
                           \<lambda>(g, ext, stack, visited). length stack]")
  show "wf (measures [\<lambda>(g, ext, stack, visited). card ((set stack \<union> all_references g) - set visited),
                      \<lambda>(g, ext, stack, visited). length stack])"
    by simp
next
  fix g :: "(string \<times> string list) list" and f :: string
    and ext stack visited :: "string list"
  have fin: "finite ((set (f # stack) \<union> all_references g) - set visited)"
    by (simp add: all_references_def)
  have "(set stack \<union> all_references g) - set visited
          \<subseteq> (set (f # stack) \<union> all_references g) - set visited"
    by auto
  then have "card ((set stack \<union> all_references g) - set visited)
          \<le> card ((set (f # stack) \<union> all_references g) - set visited)"
    using fin by (rule card_mono[rotated])
  then show "((g, ext, stack, visited), (g, ext, f # stack, visited))
       \<in> measures [\<lambda>(g, ext, stack, visited). card ((set stack \<union> all_references g) - set visited),
                      \<lambda>(g, ext, stack, visited). length stack]"
    by auto
next
  fix g :: "(string \<times> string list) list" and f :: string
    and ext stack visited :: "string list"
  assume a: "\<not> (f \<in> set ext \<or> f \<in> set visited)"
  have fin: "finite ((set (f # stack) \<union> all_references g) - set visited)"
    by (simp add: all_references_def)
  have "set (references g f) \<subseteq> all_references g"
    unfolding references_def all_references_def
    by (cases "map_of g f") (auto dest!: map_of_SomeD)
  then have "(set (references g f @ stack) \<union> all_references g) - set (visited @ [f])
        \<subset> (set (f # stack) \<union> all_references g) - set visited"
    using a by auto
  then have "card ((set (references g f @ stack) \<union> all_references g) - set (visited @ [f]))
          < card ((set (f # stack) \<union> all_references g) - set visited)"
    using fin by (rule psubset_card_mono[rotated])
  then show "((g, ext, references g f @ stack, visited @ [f]), (g, ext, f # stack, visited))
       \<in> measures [\<lambda>(g, ext, stack, visited). card ((set stack \<union> all_references g) - set visited),
                      \<lambda>(g, ext, stack, visited). length stack]"
    by auto
qed

text \<open>
  Modelled from the spec: \<open>discover(rootFile, pattern, external)\<close> of the missing
  mapper, the set of files that compose the unit rooted at \<open>rootFile\<close>: the root, then
  what the traversal of its references finds.
\<close>

definition discover :: "(string \<times> string list) list \<Rightarrow> string list \<Rightarrow> string \<Rightarrow> string list" where
  "discover g ext rootFile = discover_from g ext (references g rootFile) [rootFile]"


section \<open>Example configurations\<close>

text \<open>
  A project in \<open>/w\<close> with a source directory, a target directory that holds an artifact
  copied earlier, and a resources directory with a nested folder.
\<close>

definition example_disk :: filesystem where
  "example_disk =
     \<lparr>workdir = ''/w'',
      tree = Dir [(''w'', Dir
        [(''src'', Dir [(''main.scss'', File ''a { b: c }''), (''lib.scss'', File ''d { e: f }'')]),
         (''out'', Dir [(''static'', Dir [(''a.txt'', File ''old'')])]),
         (''res'', Dir [(''file1.js'', File ''one''),
                       (''sub'', Dir [(''file2.1.html'', File ''two''),
                                     (''sub2'', Dir [(''file3.html'', File ''three'')])])])])]\<rparr>"

text \<open>
  Backends for it. The stylesheet \<open>main.scss\<close> imports \<open>lib.scss\<close>; the script
  \<open>missing.js\<close> does not exist, so bundling it and mapping it fail.
\<close>

definition example_graph :: "(string \<times> string list) list" where
  "example_graph =
     [(''/w/src/main.scss'', [''/w/src/lib.scss'']),
      (''/w/src/app.js'', [''/w/src/util.js'', ''/w/src/vendor.js'']),
      (''/w/src/vendor.js'', [''/w/src/deep.js''])]"


definition example_css :: css_env where
  "example_css =
     \<lparr>mapper_load = (\<lambda>f. Inr \<lparr>files = entry_paths f, content = ''a { b: c }''\<rparr>),
      mapper_map = (\<lambda>f. Inr (discover example_graph [] f)),
      sass_render = (\<lambda>scss. Inr scss),
      postcss_process = (\<lambda>c. Fulfilled c),
      cleancss_minify = (\<lambda>c. Inr c)\<rparr>"

definition example_js :: js_env where
  "example_js =
     \<lparr>rollup_generate = (\<lambda>input ext fmt.
         if input = StringEntry ''/w/src/missing.js''
         then Rejected (Failure ''Could not resolve entry module'')
         else Fulfilled \<lparr>files = entry_paths input, content = ''code''\<rparr>),
      babel_transform = (\<lambda>c. Inr c),
      uglify_minify = (\<lambda>c. Inr c),
      mapNested = (\<lambda>f ext.
         if f = ''/w/src/missing.js'' then Inl (Failure ''ENOENT'')
         else Inr (discover example_graph ext f))\<rparr>"

definition example_world :: world where
  "example_world =
     \<lparr>css = example_css, js = example_js,
      html_compile = (\<lambda>src. Inr (Fulfilled \<lparr>files = entry_paths src, content = ''html''\<rparr>)),
      html_mapFile = (\<lambda>f ext. Fulfilled [f]),
      files_copy = (\<lambda>src tgt fs. (Inr (Fulfilled ()), fs)),
      files_addPath = (\<lambda>p fs. (None, fs)),
      files_mapFile = (\<lambda>fs f. Fulfilled [f]),
      settle_time = (\<lambda>i. 10 - i)\<rparr>"

definition example_state :: state where
  "example_state = initial_state example_disk CssConsoleLog"

definition example_map :: appMap where
  "example_map =
     \<lparr>map_source = Some ''src'', map_target = Some ''out'',
      map_entries = Some [(''app.js'', StringEntry ''missing.js''),
                          (''style.css'', StringEntry ''main.scss'')]\<rparr>"

text \<open>
  The same state when every handler that the user passes throws on the error it is given
  (\<open>error => { throw new Error('handler failed'); }\<close>).
\<close>

definition throwing_state :: state where
  "throwing_state = example_state\<lparr>handler_throws := (\<lambda>n e. Some (Failure ''handler failed''))\<rparr>"

text \<open>Stylesheet backends whose loading, respectively whose sass step, fails.\<close>

definition failing_load_css :: css_env where
  "failing_load_css = example_css\<lparr>mapper_load := (\<lambda>f. Inl (Failure ''ENOENT''))\<rparr>"

definition failing_sass_css :: css_env where
  "failing_sass_css = example_css\<lparr>sass_render := (\<lambda>scss. Inl (Failure ''Invalid CSS''))\<rparr>"

text \<open>
  The watcher that \<open>live\<close> registers for the pass-through output \<open>static/\<close> of the map
  \<open>{ source: 'src', target: 'out', entries: { 'static/': 'a.txt' } }\<close>.
\<close>

definition static_map :: appMap where
  "static_map =
     \<lparr>map_source = Some ''src'', map_target = Some ''out'',
      map_entries = Some [(''static/'', StringEntry ''a.txt'')]\<rparr>"

definition static_watcher :: watcher where
  "static_watcher =
     \<lparr>w_file = ''/w/src/a.txt'', w_options = None, w_rootFile = ''/w/src/a.txt'',
      w_output = ''static/'', w_target = ''out'', w_timeOut = None\<rparr>"

text \<open>The watcher of the stylesheet output of \<open>example_map\<close>.\<close>

definition style_watcher :: watcher where
  "style_watcher =
     \<lparr>w_file = ''/w/src/main.scss'', w_options = None, w_rootFile = ''/w/src/main.scss'',
      w_output = ''style.css'', w_target = ''out'', w_timeOut = None\<rparr>"

text \<open>
  The same project after an edit that breaks the script \<open>app.js\<close>: its references are
  still found, but bundling it fails. With it, the map that builds \<open>app.js\<close> and one of
  the watchers that \<open>live\<close> registers for it.
\<close>

definition broken_world :: world where
  "broken_world =
     example_world\<lparr>js := example_js\<lparr>rollup_generate :=
       (\<lambda>input ext fmt. Rejected (Failure ''SyntaxError''))\<rparr>\<rparr>"

definition app_map :: appMap where
  "app_map =
     \<lparr>map_source = Some ''src'', map_target = Some ''out'',
      map_entries = Some [(''app.js'', StringEntry ''app.js'')]\<rparr>"

definition app_watcher :: watcher where
  "app_watcher =
     \<lparr>w_file = ''/w/src/app.js'', w_options = None, w_rootFile = ''/w/src/app.js'',
      w_output = ''app.js'', w_target = ''out'', w_timeOut = None\<rparr>"

section \<open>Properties of path joining\<close>

lemma replace_no_dup: "\<not> has_dup_sep s \<Longrightarrow> replace_str ''//'' ''/'' s = s"
  by (induction s rule: has_dup_sep.induct) (auto simp: sep_def)

lemma has_dup_sep_append:
  "has_dup_sep (a @ b) \<longleftrightarrow>
     has_dup_sep a \<or> has_dup_sep b \<or> (ends_with_sep a \<and> b \<noteq> [] \<and> hd b = sep)"
proof (induction a rule: has_dup_sep.induct)
  fix x y cs
  assume "has_dup_sep ((y # cs) @ b) \<longleftrightarrow>
     has_dup_sep (y # cs) \<or> has_dup_sep b \<or> (ends_with_sep (y # cs) \<and> b \<noteq> [] \<and> hd b = sep)"
  then show "has_dup_sep ((x # y # cs) @ b) \<longleftrightarrow>
     has_dup_sep (x # y # cs) \<or> has_dup_sep b \<or>
     (ends_with_sep (x # y # cs) \<and> b \<noteq> [] \<and> hd b = sep)"
    by (auto simp: ends_with_sep_def)
next
  show "has_dup_sep ([] @ b) \<longleftrightarrow>
     has_dup_sep [] \<or> has_dup_sep b \<or> (ends_with_sep [] \<and> b \<noteq> [] \<and> hd b = sep)"
    by (simp add: ends_with_sep_def)
next
  fix v
  show "has_dup_sep ([v] @ b) \<longleftrightarrow>
     has_dup_sep [v] \<or> has_dup_sep b \<or> (ends_with_sep [v] \<and> b \<noteq> [] \<and> hd b = sep)"
    by (cases b) (auto simp: ends_with_sep_def)
qed

lemma replace_at_joint:
  "\<not> has_dup_sep (p @ ''/'') \<Longrightarrow> replace_str ''//'' ''/'' (p @ ''//'' @ f) = p @ ''/'' @ f"
  by (induction p rule: has_dup_sep.induct) (auto simp: sep_def)

lemma has_dup_sep_butlast: "\<not> has_dup_sep p \<Longrightarrow> \<not> has_dup_sep (butlast p)"
  by (induction p rule: has_dup_sep.induct) auto

lemma strip_trailing_props:
  assumes "\<not> has_dup_sep p"
  shows "\<not> has_dup_sep (strip_trailing_sep p)" and "\<not> ends_with_sep (strip_trailing_sep p)"
proof -
  show "\<not> has_dup_sep (strip_trailing_sep p)"
    using assms by (simp add: strip_trailing_sep_def has_dup_sep_butlast)
  show "\<not> ends_with_sep (strip_trailing_sep p)"
  proof (cases "ends_with_sep p")
    case False
    then show ?thesis by (simp add: strip_trailing_sep_def)
  next
    case True
    then have p: "p = butlast p @ [sep]"
      by (metis ends_with_sep_def append_butlast_last_id)
    have "\<not> has_dup_sep (butlast p @ [sep])" using assms p by simp
    then have "\<not> ends_with_sep (butlast p)"
      by (simp add: has_dup_sep_append)
    with True show ?thesis by (simp add: strip_trailing_sep_def)
  qed
qed

lemma strip_leading_props:
  assumes "\<not> has_dup_sep f"
  shows "\<not> has_dup_sep (strip_leading_sep f)"
    and "strip_leading_sep f = [] \<or> hd (strip_leading_sep f) \<noteq> sep"
  using assms by (cases f rule: has_dup_sep.cases; auto simp: strip_leading_sep_def)+

lemma joined_no_dup:
  assumes "\<not> has_dup_sep p" "\<not> has_dup_sep f"
  shows "\<not> has_dup_sep (strip_trailing_sep p @ ''/'' @ strip_leading_sep f)"
proof -
  have "\<not> has_dup_sep (''/'' @ strip_leading_sep f)"
    using strip_leading_props[OF assms(2)] by (cases "strip_leading_sep f") auto
  then show ?thesis
    using strip_trailing_props[OF assms(1)] by (simp add: has_dup_sep_append)
qed

lemma joined_eq:
  assumes "p \<noteq> []" "\<not> has_dup_sep p" "\<not> has_dup_sep f"
  shows "getAbsolutePath cwd p f =
           cwd @ ''/'' @ strip_trailing_sep p @ ''/'' @ strip_leading_sep f"
proof -
  define q where "q = strip_trailing_sep p"
  have q: "\<not> has_dup_sep q" "\<not> ends_with_sep q"
    using strip_trailing_props[OF assms(2)] by (simp_all add: q_def)
  have p': "(if length p > 0 \<and> \<not> ends_with_sep p then p @ ''/'' else p) = q @ ''/''"
  proof (cases "ends_with_sep p")
    case True
    then have "p = butlast p @ [sep]" by (metis ends_with_sep_def append_butlast_last_id)
    with True show ?thesis by (simp add: q_def strip_trailing_sep_def sep_def)
  next
    case False
    with assms(1) show ?thesis by (simp add: q_def strip_trailing_sep_def)
  qed
  have nd: "\<not> has_dup_sep (q @ ''/'')"
    using q by (simp add: has_dup_sep_append)
  have "replace_str ''//'' ''/'' ((q @ ''/'') @ f) = q @ ''/'' @ strip_leading_sep f"
  proof (cases "f \<noteq> [] \<and> hd f = sep")
    case True
    then obtain g where f: "f = ''/'' @ g" by (cases f) (auto simp: sep_def)
    then have "strip_leading_sep f = g" by (simp add: strip_leading_sep_def sep_def)
    moreover have "replace_str ''//'' ''/'' (q @ ''//'' @ g) = q @ ''/'' @ g"
      using nd by (rule replace_at_joint)
    ultimately show ?thesis using f by simp
  next
    case False
    then have s: "strip_leading_sep f = f" by (cases f) (auto simp: strip_leading_sep_def)
    have "\<not> has_dup_sep ((q @ ''/'') @ f)"
      using nd assms(3) False by (subst has_dup_sep_append) auto
    then show ?thesis using s by (simp add: replace_no_dup)
  qed
  then show ?thesis
    unfolding getAbsolutePath_def Let_def p' q_def by simp
qed

lemma getAbsolutePath_prefix: "prefix (cwd @ ''/'') (getAbsolutePath cwd path file)"
  by (simp add: getAbsolutePath_def Let_def)

lemma getAbsolutePath_empty_base:
  "\<not> has_dup_sep file \<Longrightarrow> getAbsolutePath cwd [] file = cwd @ ''/'' @ file"
  by (simp add: getAbsolutePath_def replace_no_dup)

lemma count_dup_sep_zero: "count_dup_sep s = 0 \<longleftrightarrow> \<not> has_dup_sep s"
  by (induction s rule: has_dup_sep.induct) auto

lemma replace_hd:
  "s \<noteq> [] \<Longrightarrow> hd s \<noteq> sep \<Longrightarrow> replace_str ''//'' ''/'' s \<noteq> [] \<and> hd (replace_str ''//'' ''/'' s) = hd s"
  by (cases s) (auto simp: sep_def)

lemma replace_single_dup:
  "count_dup_sep s \<le> 1 \<Longrightarrow> \<not> has_dup_sep (replace_str ''//'' ''/'' s)"
proof (induction s rule: has_dup_sep.induct)
  fix a b cs
  assume IH: "count_dup_sep (b # cs) \<le> 1 \<Longrightarrow> \<not> has_dup_sep (replace_str ''//'' ''/'' (b # cs))"
    and c: "count_dup_sep (a # b # cs) \<le> 1"
  show "\<not> has_dup_sep (replace_str ''//'' ''/'' (a # b # cs))"
  proof (cases "a = sep \<and> b = sep")
    case True
    with c have "count_dup_sep (b # cs) = 0" by simp
    then have "\<not> has_dup_sep (b # cs)" using count_dup_sep_zero by blast
    with True show ?thesis by (simp add: sep_def)
  next
    case False
    with c have "count_dup_sep (b # cs) \<le> 1" by simp
    then have nd: "\<not> has_dup_sep (replace_str ''//'' ''/'' (b # cs))" by (rule IH)
    have r: "replace_str ''//'' ''/'' (a # b # cs) = a # replace_str ''//'' ''/'' (b # cs)"
      using False by (auto simp: sep_def)
    show ?thesis
    proof (cases "a = sep")
      case True
      with False have "b \<noteq> sep" by simp
      then have "replace_str ''//'' ''/'' (b # cs) \<noteq> [] \<and> hd (replace_str ''//'' ''/'' (b # cs)) = b"
        using replace_hd[of "b # cs"] by simp
      then obtain y ys where "replace_str ''//'' ''/'' (b # cs) = y # ys" "y = b"
        by (cases "replace_str ''//'' ''/'' (b # cs)") auto
      with nd r \<open>b \<noteq> sep\<close> show ?thesis by simp
    next
      case False
      then show ?thesis using nd r
        by (cases "replace_str ''//'' ''/'' (b # cs)") auto
    qed
  qed
next
  show "\<not> has_dup_sep (replace_str ''//'' ''/'' [])" by simp
next
  fix v
  show "\<not> has_dup_sep (replace_str ''//'' ''/'' [v])" by simp
qed

lemma getAbsolutePath_relative:
  "drop (Suc (length cwd)) (getAbsolutePath cwd path file) =
     replace_str ''//'' ''/'' (with_trailing_sep path @ file)"
  by (simp add: getAbsolutePath_def with_trailing_sep_def Let_def)

text \<open>
  C3, as stated, fails: the joined path can keep a duplicate separator. With base
  \<open>a//b/\<close> and fragment \<open>/c\<close> the replacement is spent on the first \<open>//\<close> and the
  duplicate at the joint stays.
\<close>

theorem getAbsolutePath_keeps_duplicate:
  "getAbsolutePath ''/w'' ''a//b/'' ''/c'' = ''/w/a/b//c'' \<and> has_dup_sep ''a/b//c''"
  by (simp add: getAbsolutePath_def ends_with_sep_def sep_def)

text \<open>
  C3 (amended): the result of \<open>getAbsolutePath\<close> always starts with the working
  directory and one separator. When the base, with the separator the function adds to
  it, followed by the fragment holds at most one duplicate separator, that duplicate is
  collapsed: what follows the working directory in the result has none. In particular,
  when neither base nor fragment contains a duplicate separator and the base is not
  empty, base and fragment are joined by exactly one separator; with an empty base the
  fragment follows the working directory unchanged. The function reads nothing but its
  arguments and the working directory, and has no failure branch.
\<close>

theorem getAbsolutePath_joins:
  "prefix (cwd @ ''/'') (getAbsolutePath cwd path file) \<and>
   (count_dup_sep (with_trailing_sep path @ file) \<le> 1 \<longrightarrow>
      \<not> has_dup_sep (drop (Suc (length cwd)) (getAbsolutePath cwd path file))) \<and>
   (path \<noteq> [] \<and> \<not> has_dup_sep path \<and> \<not> has_dup_sep file \<longrightarrow>
      getAbsolutePath cwd path file =
        cwd @ ''/'' @ strip_trailing_sep path @ ''/'' @ strip_leading_sep file \<and>
      \<not> has_dup_sep (strip_trailing_sep path @ ''/'' @ strip_leading_sep file)) \<and>
   (path = [] \<and> \<not> has_dup_sep file \<longrightarrow>
      getAbsolutePath cwd path file = cwd @ ''/'' @ file)"
proof -
  have "count_dup_sep (with_trailing_sep path @ file) \<le> 1 \<longrightarrow>
      \<not> has_dup_sep (drop (Suc (length cwd)) (getAbsolutePath cwd path file))"
    using replace_single_dup[of "with_trailing_sep path @ file"]
    by (simp add: getAbsolutePath_relative)
  then show ?thesis
    using getAbsolutePath_prefix joined_eq joined_no_dup getAbsolutePath_empty_base
    by blast
qed

theorem getAbsolutePath_joins_witness:
  "getAbsolutePath ''/w'' ''src/'' ''/a.js'' = ''/w/src/a.js'' \<and>
   getAbsolutePath ''/w'' ''src'' ''a.js'' = ''/w/src/a.js'' \<and>
   getAbsolutePath ''/w'' [] ''a.js'' = ''/w/a.js'' \<and>
   \<not> has_dup_sep ''src/a.js'' \<and>
   \<not> has_dup_sep (drop (Suc (length ''/w'')) (getAbsolutePath ''/w'' ''src//lib'' ''a.js''))"
proof -
  have a: "''src/'' \<noteq> [] \<and> \<not> has_dup_sep ''src/'' \<and> \<not> has_dup_sep ''/a.js''"
    by (simp add: sep_def)
  have b: "''src'' \<noteq> [] \<and> \<not> has_dup_sep ''src'' \<and> \<not> has_dup_sep ''a.js''"
    by (simp add: sep_def)
  have c: "\<not> has_dup_sep ''a.js''"
    by (simp add: sep_def)
  have d: "count_dup_sep (with_trailing_sep ''src//lib'' @ ''a.js'') \<le> 1"
    by (simp add: with_trailing_sep_def ends_with_sep_def sep_def)
  show ?thesis
    using a b c d
      getAbsolutePath_joins [of "''/w''" "''src/''" "''/a.js''"]
      getAbsolutePath_joins [of "''/w''" "''src''" "''a.js''"]
      getAbsolutePath_joins [of "''/w''" "[]" "''a.js''"]
      getAbsolutePath_joins [of "''/w''" "''src//lib''" "''a.js''"]
    by (simp add: strip_trailing_sep_def strip_leading_sep_def ends_with_sep_def sep_def)
qed

section \<open>Properties of entry resolution\<close>

lemma entry_paths_getMappedEntries:
  "entry_paths (getMappedEntries cwd source e) =
     map (getAbsolutePath cwd source) (entry_paths e)"
  by (induction e) simp_all

lemma entry_options_getMappedEntries:
  "entry_external (getMappedEntries cwd source e) = entry_external e \<and>
   entry_format (getMappedEntries cwd source e) = entry_format e \<and>
   is_object_entry (getMappedEntries cwd source e) = is_object_entry e"
  by (cases e) simp_all

text \<open>
  C6, as stated, fails in its last part: the \<open>external\<close> paths of an object entry are
  copied as they are, not expanded against the source root.
\<close>

theorem getMappedEntries_external_not_expanded:
  "getMappedEntries ''/w'' ''src'' (ObjectEntry (StringEntry ''a.js'') (Some [''lib.js'']) None)
     = ObjectEntry (ListEntry [''/w/src/a.js'']) (Some [''lib.js'']) None \<and>
   [''lib.js''] \<noteq> map (getAbsolutePath ''/w'' ''src'') [''lib.js'']"
  by (simp add: getAbsolutePath_def ends_with_sep_def sep_def)

lemma getMappedEntries_under_source:
  assumes "source \<noteq> []" "\<not> has_dup_sep source" "\<forall>f \<in> set (entry_paths e). \<not> has_dup_sep f"
    and "p \<in> set (entry_paths (getMappedEntries cwd source e))"
  shows "prefix (cwd @ ''/'' @ strip_trailing_sep source @ ''/'') p"
proof -
  from assms(4) obtain f where f: "f \<in> set (entry_paths e)" and p: "p = getAbsolutePath cwd source f"
    by (auto simp: entry_paths_getMappedEntries)
  from f assms(3) have "\<not> has_dup_sep f" by blast
  then have "p = cwd @ ''/'' @ strip_trailing_sep source @ ''/'' @ strip_leading_sep f"
    using p joined_eq[OF assms(1,2)] by simp
  then show ?thesis by simp
qed

text \<open>
  C6 (amended): resolution maps a string or a list to the sequence of
  \<open>getAbsolutePath source\<close> of its paths, in the same order and of the same length,
  each starting with the working directory, and lying under the source root when the
  root is not empty and neither it nor the paths contain a duplicate separator; it maps
  an object to an object whose \<open>source\<close> is resolved recursively and whose \<open>external\<close>
  and \<open>format\<close> are the declared ones, unchanged.
\<close>

theorem getMappedEntries_resolves:
  "getMappedEntries cwd source (StringEntry s) = ListEntry [getAbsolutePath cwd source s] \<and>
   getMappedEntries cwd source (ListEntry fs) = ListEntry (map (getAbsolutePath cwd source) fs) \<and>
   getMappedEntries cwd source (ObjectEntry src ext fmt) =
     ObjectEntry (getMappedEntries cwd source src) ext fmt \<and>
   entry_paths (getMappedEntries cwd source e) =
     map (getAbsolutePath cwd source) (entry_paths e) \<and>
   entry_external (getMappedEntries cwd source e) = entry_external e \<and>
   entry_format (getMappedEntries cwd source e) = entry_format e \<and>
   is_object_entry (getMappedEntries cwd source e) = is_object_entry e \<and>
   (\<forall>p \<in> set (entry_paths (getMappedEntries cwd source e)). prefix (cwd @ ''/'') p) \<and>
   (source \<noteq> [] \<and> \<not> has_dup_sep source \<and> (\<forall>f \<in> set (entry_paths e). \<not> has_dup_sep f) \<longrightarrow>
      (\<forall>p \<in> set (entry_paths (getMappedEntries cwd source e)).
         prefix (cwd @ ''/'' @ strip_trailing_sep source @ ''/'') p))"
proof -
  have "source \<noteq> [] \<and> \<not> has_dup_sep source \<and> (\<forall>f \<in> set (entry_paths e). \<not> has_dup_sep f) \<longrightarrow>
      (\<forall>p \<in> set (entry_paths (getMappedEntries cwd source e)).
         prefix (cwd @ ''/'' @ strip_trailing_sep source @ ''/'') p)"
    using getMappedEntries_under_source[of source e _ cwd] by blast
  then show ?thesis
    using entry_options_getMappedEntries [of cwd source e]
    by (auto simp: entry_paths_getMappedEntries getAbsolutePath_prefix)
qed

theorem getMappedEntries_resolves_witness:
  "entry_paths (getMappedEntries ''/w'' ''src''
      (ObjectEntry (ListEntry [''a.js'', ''b.js'']) (Some [''lib.js'']) (Some ''iife'')))
     = [''/w/src/a.js'', ''/w/src/b.js''] \<and>
   ''/w/src/a.js'' \<in> set (entry_paths (getMappedEntries ''/w'' ''src''
      (ObjectEntry (ListEntry [''a.js'', ''b.js'']) (Some [''lib.js'']) (Some ''iife'')))) \<and>
   prefix (''/w'' @ ''/'' @ strip_trailing_sep ''src'' @ ''/'') ''/w/src/a.js''"
proof -
  let ?e = "ObjectEntry (ListEntry [''a.js'', ''b.js'']) (Some [''lib.js'']) (Some ''iife'')"
  have h: "''src'' \<noteq> [] \<and> \<not> has_dup_sep ''src'' \<and> (\<forall>f \<in> set (entry_paths ?e). \<not> has_dup_sep f)"
    by (simp add: sep_def)
  have v: "entry_paths (getMappedEntries ''/w'' ''src'' ?e) = [''/w/src/a.js'', ''/w/src/b.js'']"
    by (simp add: getAbsolutePath_def ends_with_sep_def sep_def)
  from getMappedEntries_resolves [of "''/w''" "''src''" "''a.js''" "[''a.js'', ''b.js'']"
      "ListEntry [''a.js'', ''b.js'']" "Some [''lib.js'']" "Some ''iife''" ?e] h
  have "\<forall>p \<in> set (entry_paths (getMappedEntries ''/w'' ''src'' ?e)).
          prefix (''/w'' @ ''/'' @ strip_trailing_sep ''src'' @ ''/'') p"
    by blast
  with v show ?thesis by simp
qed

section \<open>Properties of the stylesheet module\<close>

lemmas css_compile_unfold = css_compile_def promise_then_def promise_catch_def css_loadFile_def
  css_sass_def css_prefix_def css_minify_def promise_of_def handler_callback_def call_handler_def

lemma handler_result_delivered [simp]:
  "handler_result (st\<lparr>delivered := x\<rparr>) h e = handler_result st h e"
  by (cases h) (simp_all add: handler_result_def)

lemma handler_result_disk [simp]:
  "handler_result (st\<lparr>disk := x\<rparr>) h e = handler_result st h e"
  by (cases h) (simp_all add: handler_result_def)

lemma handler_result_cong:
  "handler_throws s = handler_throws st \<Longrightarrow> handler_result s h e = handler_result st h e"
  by (cases h) (simp_all add: handler_result_def)

lemma handler_callback_returns:
  "handler_result st h err = None \<Longrightarrow>
   handler_callback h v err st = (Fulfilled v, snd (call_handler h err st))"
  by (simp add: handler_callback_def call_handler_def)

lemma handler_callback_throws:
  "handler_result st h err = Some thrown \<Longrightarrow>
   handler_callback h v err st = (Rejected thrown, snd (call_handler h err st))"
  by (simp add: handler_callback_def call_handler_def)

lemma css_compile_fulfils:
  assumes "\<forall>err. handler_result st (css_handleError st) err = None"
  shows "\<exists>fileSet st'. css_compile env fileName st = (Fulfilled fileSet, st')"
  using assms unfolding css_compile_unfold
  by (simp split: sum.splits promise.splits)

lemma css_compile_load_failure:
  assumes "handler_result st (css_handleError st) err = None"
    and "mapper_load env fileName = Inl err"
  shows "css_compile env fileName st =
     (Fulfilled \<lparr>files = [], content = []\<rparr>, snd (call_handler (css_handleError st) err st))"
  using assms unfolding css_compile_unfold by simp

lemma css_compile_sass_failure:
  assumes "handler_result st (css_handleError st) err = None"
    and "mapper_load env fileName = Inr loaded" "content loaded \<noteq> []"
    and "sass_render env (content loaded) = Inl err"
  shows "(css_handleError st, err) \<in> set (delivered (snd (css_compile env fileName st)))"
    and "postcss_process env [] = Fulfilled p \<Longrightarrow> cleancss_minify env p = Inr m \<Longrightarrow>
      css_compile env fileName st =
        (Fulfilled (loaded\<lparr>content := m\<rparr>), snd (call_handler (css_handleError st) err st))"
  using assms unfolding css_compile_unfold
  by (simp_all split: sum.splits promise.splits option.splits)

text \<open>
  The promise of \<open>compile\<close> is rejected only with what the handler of the module has
  thrown. Whatever happens, \<open>compile\<close> leaves the disk and the handlers as they are, and
  only adds deliveries.
\<close>

lemma css_compile_rejected:
  "css_compile env fileName st = (Rejected thrown, st') \<Longrightarrow>
   \<exists>err. handler_result st (css_handleError st) err = Some thrown"
  unfolding css_compile_unfold
  by (auto split: sum.splits promise.splits option.splits if_splits)

lemma css_compile_keeps:
  "css_compile env fileName st = (p, st') \<Longrightarrow>
   prefix (delivered st) (delivered st') \<and> disk st' = disk st \<and>
   handler_throws st' = handler_throws st"
  unfolding css_compile_unfold
  by (auto split: sum.splits promise.splits option.splits if_splits)

text \<open>
  C10, as stated, fails: the handler of the module is whatever \<open>onError\<close> has stored, and
  when it throws, the exception leaves the \<open>catch\<close> callback that called it. After a
  failure of loading the outer \<open>catch\<close> calls the handler, and its exception rejects the
  promise of \<open>compile\<close>; after a failure of sass the exception of the inner \<open>catch\<close>
  reaches the outer one, which calls the handler again, with the same end.
\<close>

theorem css_compile_rejects_when_handler_throws:
  "css_compile failing_load_css (ListEntry [''/w/src/main.scss''])
       (css_onError (UserHandler 0) throwing_state) =
     (Rejected (Failure ''handler failed''),
      snd (call_handler (UserHandler 0) (Failure ''ENOENT'')
             (css_onError (UserHandler 0) throwing_state))) \<and>
   fst (css_compile failing_sass_css (ListEntry [''/w/src/main.scss''])
          (css_onError (UserHandler 0) throwing_state)) =
     Rejected (Failure ''handler failed'') \<and>
   delivered (snd (css_compile failing_sass_css (ListEntry [''/w/src/main.scss''])
                     (css_onError (UserHandler 0) throwing_state))) =
     [(UserHandler 0, Failure ''Invalid CSS''), (UserHandler 0, Failure ''handler failed'')]"
proof -
  let ?st = "css_onError (UserHandler 0) throwing_state"
  have t: "handler_result ?st (css_handleError ?st) (Failure ''ENOENT'') = Some (Failure ''handler failed'')"
    by (simp add: handler_result_def css_onError_def throwing_state_def)
  have l: "mapper_load failing_load_css (ListEntry [''/w/src/main.scss'']) = Inl (Failure ''ENOENT'')"
    by (simp add: failing_load_css_def)
  have c: "css_handleError ?st = UserHandler 0"
    by (simp add: css_onError_def)
  have "css_compile failing_load_css (ListEntry [''/w/src/main.scss'']) ?st =
     (Rejected (Failure ''handler failed''),
      snd (call_handler (UserHandler 0) (Failure ''ENOENT'') ?st))"
    using t l c unfolding css_compile_unfold by simp
  moreover have "fst (css_compile failing_sass_css (ListEntry [''/w/src/main.scss'']) ?st) =
     Rejected (Failure ''handler failed'')"
    by code_simp
  moreover have "delivered (snd (css_compile failing_sass_css (ListEntry [''/w/src/main.scss'']) ?st)) =
     [(UserHandler 0, Failure ''Invalid CSS''), (UserHandler 0, Failure ''handler failed'')]"
    by code_simp
  ultimately show ?thesis by simp
qed

text \<open>
  C10 (amended): as long as the handler of the module returns when it is called,
  \<open>css.compile\<close> does not reject. Whatever the libraries do, the promise is fulfilled. A
  failure of loading is passed to the handler of the module and the promise is fulfilled
  with \<open>{ files: [], content: '' }\<close>; a failure of sass is passed to the handler and the
  rest of the pipeline runs on the empty string, its result becoming the content of the
  loaded file set.
\<close>

theorem css_compile_resolves_when_handler_returns:
  assumes "\<forall>err. handler_result st (css_handleError st) err = None"
  shows "(\<exists>fileSet st'. css_compile env fileName st = (Fulfilled fileSet, st')) \<and>
   (\<forall>err. mapper_load env fileName = Inl err \<longrightarrow>
      css_compile env fileName st =
        (Fulfilled \<lparr>files = [], content = []\<rparr>,
         snd (call_handler (css_handleError st) err st))) \<and>
   (\<forall>loaded err.
      mapper_load env fileName = Inr loaded \<and> content loaded \<noteq> [] \<and>
      sass_render env (content loaded) = Inl err \<longrightarrow>
        (css_handleError st, err) \<in> set (delivered (snd (css_compile env fileName st))) \<and>
        (\<forall>p m. postcss_process env [] = Fulfilled p \<and> cleancss_minify env p = Inr m \<longrightarrow>
           css_compile env fileName st =
             (Fulfilled (loaded\<lparr>content := m\<rparr>),
              snd (call_handler (css_handleError st) err st))))"
proof (intro conjI allI impI)
  show "\<exists>fileSet st'. css_compile env fileName st = (Fulfilled fileSet, st')"
    using assms by (rule css_compile_fulfils)
next
  fix err
  assume "mapper_load env fileName = Inl err"
  with assms show "css_compile env fileName st =
      (Fulfilled \<lparr>files = [], content = []\<rparr>, snd (call_handler (css_handleError st) err st))"
    by (simp add: css_compile_load_failure)
next
  fix loaded err
  assume "mapper_load env fileName = Inr loaded \<and> content loaded \<noteq> [] \<and>
      sass_render env (content loaded) = Inl err"
  with assms show "(css_handleError st, err) \<in> set (delivered (snd (css_compile env fileName st)))"
    by (simp add: css_compile_sass_failure(1))
next
  fix loaded err p m
  assume "mapper_load env fileName = Inr loaded \<and> content loaded \<noteq> [] \<and>
      sass_render env (content loaded) = Inl err"
    and "postcss_process env [] = Fulfilled p \<and> cleancss_minify env p = Inr m"
  with assms show "css_compile env fileName st =
      (Fulfilled (loaded\<lparr>content := m\<rparr>), snd (call_handler (css_handleError st) err st))"
    by (simp add: css_compile_sass_failure(2))
qed

theorem css_compile_resolves_when_handler_returns_witness:
  "(\<forall>err. handler_result example_state (css_handleError example_state) err = None) \<and>
   css_compile failing_load_css (ListEntry [''/w/src/main.scss'']) example_state =
     (Fulfilled \<lparr>files = [], content = []\<rparr>,
      snd (call_handler CssConsoleLog (Failure ''ENOENT'') example_state)) \<and>
   css_compile failing_sass_css (ListEntry [''/w/src/main.scss'']) example_state =
     (Fulfilled \<lparr>files = [''/w/src/main.scss''], content = []\<rparr>,
      snd (call_handler CssConsoleLog (Failure ''Invalid CSS'') example_state))"
proof -
  have h: "\<forall>err. handler_result example_state (css_handleError example_state) err = None"
    by (simp add: handler_result_def example_state_def initial_state_def)
  from css_compile_resolves_when_handler_returns [OF h, of failing_load_css "ListEntry [''/w/src/main.scss'']"]
    css_compile_resolves_when_handler_returns [OF h, of failing_sass_css "ListEntry [''/w/src/main.scss'']"]
    h
  show ?thesis
    by (simp add: failing_load_css_def failing_sass_css_def example_css_def example_state_def
        initial_state_def)
qed

section \<open>Properties of the one-shot build\<close>

lemma promise_all_fulfilled: "promise_all (map Fulfilled vs) = Fulfilled vs"
  by (induction vs) simp_all

lemma all_fulfilled:
  "\<forall>q \<in> set ps. \<exists>v. q = Fulfilled v \<Longrightarrow> \<exists>vs. ps = map Fulfilled vs"
proof (induction ps)
  case Nil
  then show ?case by simp
next
  case (Cons q ps)
  then obtain v vs where "q = Fulfilled v" "ps = map Fulfilled vs"
    by auto
  then have "q # ps = map Fulfilled (v # vs)" by simp
  then show ?case by (rule exI)
qed

text \<open>
  Starting a build step and settling its promise leave what the handlers do as it is; the
  start adds no delivery, and settling only adds deliveries.
\<close>

lemma write_response_keeps:
  "write_response w t r st = (q, st') \<Longrightarrow>
   delivered st' = delivered st \<and> handler_throws st' = handler_throws st"
  unfolding write_response_def by (auto split: prod.splits option.splits sum.splits)

lemma writeToFile_keeps:
  "writeToFile w tp tn src t trig st = (r, st') \<Longrightarrow>
   delivered st' = delivered st \<and> handler_throws st' = handler_throws st"
  unfolding writeToFile_def Let_def
  by (auto split: sum.splits prod.splits promise.splits option.splits if_splits)

lemma handler_compile_task_keeps:
  assumes "handler_compile w t src = Inr compiling" "compiling s = (q, s')"
  shows "prefix (delivered s) (delivered s') \<and> handler_throws s' = handler_throws s"
  using assms unfolding handler_compile_def
  by (auto split: fileType.splits sum.splits dest: css_compile_keeps)

lemma writeToFile_task_keeps:
  assumes "writeToFile w tp tn src t trig st = (Inr pending, st')" "pending s = (q, s')"
  shows "prefix (delivered s) (delivered s') \<and> handler_throws s' = handler_throws s"
proof (cases "t = FilesType")
  case True
  with assms show ?thesis
    unfolding writeToFile_def Let_def
    by (auto split: sum.splits prod.splits promise.splits option.splits)
next
  case False
  with assms obtain compiling where hc: "handler_compile w t src = Inr compiling"
    and p: "pending = (\<lambda>s. promise_then (compiling s)
              (write_response w (getAbsolutePath (workdir (disk st)) tp tn)))"
    unfolding writeToFile_def Let_def by (auto split: sum.splits)
  obtain c s1 where c: "compiling s = (c, s1)"
    by (cases "compiling s")
  from handler_compile_task_keeps[OF hc c]
  have k1: "prefix (delivered s) (delivered s1)" "handler_throws s1 = handler_throws s"
    by simp_all
  show ?thesis
  proof (cases c)
    case (Rejected e)
    with assms(2) p c k1 show ?thesis
      by (simp add: promise_then_def)
  next
    case (Fulfilled response)
    with assms(2) p c have
      "write_response w (getAbsolutePath (workdir (disk st)) tp tn) response s1 = (q, s')"
      by (simp add: promise_then_def)
    from write_response_keeps[OF this] k1 show ?thesis by simp
  qed
qed

lemma start_entries_keeps:
  "start_entries w src tgt es st = (thrown, tasks, st1) \<Longrightarrow>
   delivered st1 = delivered st \<and> handler_throws st1 = handler_throws st \<and>
   (thrown = None \<longrightarrow> length tasks = length es) \<and>
   (\<forall>pending \<in> set tasks. \<forall>s q s'. pending s = (q, s') \<longrightarrow>
      prefix (delivered s) (delivered s') \<and> handler_throws s' = handler_throws s)"
proof (induction es arbitrary: st thrown tasks st1)
  case Nil
  then show ?case by simp
next
  case (Cons e es)
  obtain r sa where w1: "writeToFile w tgt (fst e)
      (getMappedEntries (workdir (disk st)) src (snd e)) (getFileType (fst e)) None st = (r, sa)"
    by (cases "writeToFile w tgt (fst e)
      (getMappedEntries (workdir (disk st)) src (snd e)) (getFileType (fst e)) None st")
  from writeToFile_keeps[OF w1]
  have ka: "delivered sa = delivered st" "handler_throws sa = handler_throws st"
    by simp_all
  show ?case
  proof (cases r)
    case (Inl err)
    with Cons.prems w1 ka show ?thesis by auto
  next
    case (Inr pending)
    obtain thrown2 tasks2 sb where rest: "start_entries w src tgt es sa = (thrown2, tasks2, sb)"
      by (cases "start_entries w src tgt es sa")
    from Cons.prems w1 Inr rest
    have eqs: "thrown = thrown2" "tasks = pending # tasks2" "st1 = sb"
      by simp_all
    from Cons.IH[OF rest] have ih:
      "delivered sb = delivered sa" "handler_throws sb = handler_throws sa"
      "thrown2 = None \<longrightarrow> length tasks2 = length es"
      "\<forall>pending \<in> set tasks2. \<forall>s q s'. pending s = (q, s') \<longrightarrow>
         prefix (delivered s) (delivered s') \<and> handler_throws s' = handler_throws s"
      by simp_all
    have "\<forall>s q s'. pending s = (q, s') \<longrightarrow>
         prefix (delivered s) (delivered s') \<and> handler_throws s' = handler_throws s"
      using writeToFile_task_keeps[OF w1[unfolded Inr]] by blast
    with ih ka eqs show ?thesis by auto
  qed
qed

text \<open>What \<open>catch(handleError)\<close> makes of a settled promise.\<close>

lemma catch_handleError_fulfilled:
  "pending s = (Fulfilled v, s1) \<Longrightarrow> catch_handleError h pending s = (Fulfilled v, s1)"
  by (simp add: catch_handleError_def promise_catch_def)

lemma catch_handleError_returns:
  "pending s = (Rejected err, s1) \<Longrightarrow> handler_result s1 h err = None \<Longrightarrow>
   catch_handleError h pending s = (Fulfilled None, snd (call_handler h err s1))"
  by (simp add: catch_handleError_def promise_catch_def handler_callback_returns)

lemma catch_handleError_throws:
  "pending s = (Rejected err, s1) \<Longrightarrow> handler_result s1 h err = Some thrown \<Longrightarrow>
   catch_handleError h pending s = (Rejected thrown, snd (call_handler h err s1))"
  by (simp add: catch_handleError_def promise_catch_def handler_callback_throws)

lemma call_handler_state:
  "delivered (snd (call_handler h err s)) = delivered s @ [(h, err)] \<and>
   handler_throws (snd (call_handler h err s)) = handler_throws s"
  by (simp add: call_handler_def)

text \<open>The run of the callbacks, one settled promise after the other.\<close>

lemma settle_append:
  "settle ts (xs @ ys) st =
     (case settle ts xs st of
        (r1, s1) \<Rightarrow> (case settle ts ys s1 of (r2, s2) \<Rightarrow> (r1 @ r2, s2)))"
  by (induction xs arbitrary: st) (auto split: prod.splits)

lemma settle_positions: "settle ts order st = (rs, st') \<Longrightarrow> map fst rs = order"
  by (induction order arbitrary: st rs st') (auto split: prod.splits)

lemma settle_caught:
  assumes steady: "\<forall>pending \<in> set tasks. \<forall>s q s'. pending s = (q, s') \<longrightarrow>
      prefix (delivered s) (delivered s') \<and> handler_throws s' = handler_throws s"
    and returns: "\<forall>err. handler_result st h err = None"
  shows "settle (map (catch_handleError h) tasks) order s = (rs, s') \<Longrightarrow>
     \<forall>i \<in> set order. i < length tasks \<Longrightarrow> handler_throws s = handler_throws st \<Longrightarrow>
     handler_throws s' = handler_throws st \<and> prefix (delivered s) (delivered s') \<and>
     (\<forall>x \<in> set rs. \<exists>v. snd x = Fulfilled v)"
proof (induction order arbitrary: s rs s')
  case Nil
  then show ?case by simp
next
  case (Cons i order)
  have i: "i < length tasks" using Cons.prems(2) by simp
  obtain q s1 where t: "(tasks ! i) s = (q, s1)"
    by (cases "(tasks ! i) s")
  have "tasks ! i \<in> set tasks" using i by simp
  with steady t have k1: "prefix (delivered s) (delivered s1)" "handler_throws s1 = handler_throws s"
    by blast+
  obtain q' s2 where c: "catch_handleError h (tasks ! i) s = (q', s2)"
    by (cases "catch_handleError h (tasks ! i) s")
  have k2: "prefix (delivered s1) (delivered s2) \<and> handler_throws s2 = handler_throws s1 \<and>
      (\<exists>v. q' = Fulfilled v)"
  proof (cases q)
    case (Fulfilled v)
    with t have "catch_handleError h (tasks ! i) s = (Fulfilled v, s1)"
      by (simp add: catch_handleError_fulfilled)
    with c show ?thesis by auto
  next
    case (Rejected err)
    have "handler_result s1 h err = None"
      using returns k1(2) Cons.prems(3) by (simp add: handler_result_cong[of s1 st])
    with Rejected t c show ?thesis
      by (auto simp: catch_handleError_returns call_handler_state)
  qed
  obtain rs2 s3 where r: "settle (map (catch_handleError h) tasks) order s2 = (rs2, s3)"
    by (cases "settle (map (catch_handleError h) tasks) order s2")
  have "handler_throws s2 = handler_throws st"
    using k1 k2 Cons.prems(3) by simp
  with Cons.IH[OF r] Cons.prems(2)
  have ih: "handler_throws s3 = handler_throws st" "prefix (delivered s2) (delivered s3)"
    "\<forall>x \<in> set rs2. \<exists>v. snd x = Fulfilled v"
    by simp_all
  from Cons.prems(1) c r i have eqs: "rs = (i, q') # rs2" "s' = s3"
    by simp_all
  have "prefix (delivered s) (delivered s3)"
    using k1(1) k2 ih(2) by (meson prefix_order.trans)
  with ih k2 eqs show ?case by auto
qed

text \<open>Putting the settled promises back in entry order.\<close>

lemma in_entry_order_nth:
  assumes pos: "map fst rs = order" and d: "distinct order" and s: "set order = {0..<n}"
  shows "length (in_entry_order rs) = n"
    and "(i, q) \<in> set rs \<Longrightarrow> in_entry_order rs ! i = q"
proof -
  have inj: "inj_on fst (set rs)" and drs: "distinct rs"
    using pos d by (auto simp: distinct_map)
  have "sorted (map fst (sort_key fst rs))"
    by (rule sorted_sort_key)
  moreover have "distinct (map fst (sort_key fst rs))"
    using inj drs by (simp add: distinct_map)
  moreover have "set (map fst (sort_key fst rs)) = set [0..<n]"
  proof -
    have "set (map fst (sort_key fst rs)) = set (map fst rs)" by simp
    with pos s show ?thesis by simp
  qed
  ultimately have keys: "map fst (sort_key fst rs) = [0..<n]"
    by (intro sorted_distinct_set_unique) simp_all
  then have len: "length (sort_key fst rs) = n"
    by (metis length_map length_upt minus_nat.diff_0)
  then show "length (in_entry_order rs) = n"
    by (simp add: in_entry_order_def)
  assume m: "(i, q) \<in> set rs"
  then have "i \<in> set order" using pos by force
  then have i: "i < n" using s by simp
  have "fst (sort_key fst rs ! i) = i"
    using keys i len by (metis nth_map nth_upt add_0)
  moreover have "sort_key fst rs ! i \<in> set rs"
    using i len by (metis nth_mem set_sort)
  ultimately have "sort_key fst rs ! i = (i, q)"
    using inj_onD[OF inj, of "sort_key fst rs ! i" "(i, q)"] m by simp
  then show "in_entry_order rs ! i = q"
    using i len by (simp add: in_entry_order_def)
qed

lemma settling_order_perm:
  "distinct (settling_order w n)" "set (settling_order w n) = {0..<n}"
  by (simp_all add: settling_order_def)

text \<open>
  The entries of a map under \<open>once\<close>, when the handler passed to it returns: every entry
  is started, every promise settles, and the slot of each entry is fulfilled.
\<close>

lemma once_entries_settles:
  assumes run: "once_entries w src tgt h es st = (Inr ps, st')"
    and returns: "\<forall>err. handler_result st h err = None"
  shows "\<exists>tasks st1 vs.
      start_entries w src tgt es st = (None, tasks, st1) \<and> length tasks = length es \<and>
      ps = map Fulfilled vs \<and> length vs = length es \<and>
      (\<forall>i < length es. \<exists>earlier later q s'.
         settling_order w (length es) = earlier @ i # later \<and>
         (tasks ! i) (snd (settle (map (catch_handleError h) tasks) earlier st1)) = (q, s') \<and>
         (\<forall>err. q = Rejected err \<longrightarrow> vs ! i = None \<and> (h, err) \<in> set (delivered st')) \<and>
         (\<forall>v. q = Fulfilled v \<longrightarrow> vs ! i = v))"
proof -
  let ?ts = "\<lambda>tasks. map (catch_handleError h) tasks"
  obtain thrown tasks st1 where se: "start_entries w src tgt es st = (thrown, tasks, st1)"
    by (cases "start_entries w src tgt es st") auto
  obtain rs st2 where sr: "settle (?ts tasks) (settling_order w (length tasks)) st1 = (rs, st2)"
    by (cases "settle (?ts tasks) (settling_order w (length tasks)) st1")
  from run se sr have thrown: "thrown = None" and ps: "ps = in_entry_order rs" and st': "st' = st2"
    unfolding once_entries_def by (auto split: option.splits)
  from start_entries_keeps[OF se] thrown have
    k0: "handler_throws st1 = handler_throws st" and n: "length tasks = length es"
    and steady: "\<forall>pending \<in> set tasks. \<forall>s q s'. pending s = (q, s') \<longrightarrow>
      prefix (delivered s) (delivered s') \<and> handler_throws s' = handler_throws s"
    by simp_all
  let ?order = "settling_order w (length tasks)"
  have inb: "\<forall>i \<in> set ?order. i < length tasks"
    by (simp add: settling_order_perm)
  from settle_caught[OF steady returns sr inb k0]
  have allf: "\<forall>x \<in> set rs. \<exists>v. snd x = Fulfilled v"
    by simp
  have pos: "map fst rs = ?order"
    using sr by (rule settle_positions)
  have "\<forall>q \<in> set ps. \<exists>v. q = Fulfilled v"
    using allf ps by (auto simp: in_entry_order_def)
  then obtain vs where vs: "ps = map Fulfilled vs"
    using all_fulfilled by blast
  have lps: "length ps = length es"
    using in_entry_order_nth(1)[OF pos settling_order_perm] ps n by simp
  then have lvs: "length vs = length es"
    using vs by simp
  have each: "\<exists>earlier later q s'.
         settling_order w (length es) = earlier @ i # later \<and>
         (tasks ! i) (snd (settle (?ts tasks) earlier st1)) = (q, s') \<and>
         (\<forall>err. q = Rejected err \<longrightarrow> vs ! i = None \<and> (h, err) \<in> set (delivered st')) \<and>
         (\<forall>v. q = Fulfilled v \<longrightarrow> vs ! i = v)" if i: "i < length es" for i
  proof -
    have "i \<in> set ?order" using i n by (simp add: settling_order_perm)
    then obtain earlier later where ord: "?order = earlier @ i # later"
      by (auto dest: split_list)
    obtain r1 s1 where e1: "settle (?ts tasks) earlier st1 = (r1, s1)"
      by (cases "settle (?ts tasks) earlier st1")
    obtain q sa where t: "(tasks ! i) s1 = (q, sa)"
      by (cases "(tasks ! i) s1")
    obtain q' sb where c: "catch_handleError h (tasks ! i) s1 = (q', sb)"
      by (cases "catch_handleError h (tasks ! i) s1")
    obtain r3 s3 where e3: "settle (?ts tasks) later sb = (r3, s3)"
      by (cases "settle (?ts tasks) later sb")
    have whole: "rs = r1 @ (i, q') # r3" "st2 = s3"
      using sr e1 c e3 i n unfolding ord settle_append by simp_all
    have in1: "\<forall>j \<in> set earlier. j < length tasks" and in3: "\<forall>j \<in> set later. j < length tasks"
      using inb ord by auto
    from settle_caught[OF steady returns e1 in1 k0]
    have k1: "handler_throws s1 = handler_throws st" by simp
    have "tasks ! i \<in> set tasks" using i n by simp
    with steady t have ka: "handler_throws sa = handler_throws s1"
      by blast
    have slot: "in_entry_order rs ! i = q'"
      using in_entry_order_nth(2)[OF pos settling_order_perm, of i q'] whole by simp
    have vslot: "ps ! i = Fulfilled (vs ! i)"
      using vs lvs i by simp
    have rej: "vs ! i = None \<and> (h, err) \<in> set (delivered st')" if q: "q = Rejected err" for err
    proof -
      have "handler_result sa h err = None"
        using returns ka k1 by (simp add: handler_result_cong[of sa st])
      with t q c have q': "q' = Fulfilled None" and sb: "sb = snd (call_handler h err sa)"
        by (simp_all add: catch_handleError_returns)
      have kb: "handler_throws sb = handler_throws st" and d: "(h, err) \<in> set (delivered sb)"
        using sb ka k1 by (simp_all add: call_handler_state)
      from settle_caught[OF steady returns e3 in3 kb]
      have "prefix (delivered sb) (delivered s3)" by simp
      then have "set (delivered sb) \<subseteq> set (delivered s3)"
        by (rule set_mono_prefix)
      with d whole st' q' slot vslot ps show ?thesis by auto
    qed
    have ful: "vs ! i = v" if q: "q = Fulfilled v" for v
      using t q c slot vslot ps by (simp add: catch_handleError_fulfilled)
    show ?thesis
      using ord n e1 t rej ful by (intro exI[of _ earlier] exI[of _ later] exI[of _ q] exI[of _ sa]) simp
  qed
  show ?thesis
    using se thrown n vs lvs each by blast
qed



lemma once_settles:
  assumes run: "once w arg h st = (Inr p, st')"
    and returns: "\<forall>err. handler_result st h err = None"
  shows "\<exists>m es tasks st1 vs.
      (arg = MapObject m \<or>
       (\<exists>mapFile. arg = MapFile mapFile \<and> readMapFile mapFile (disk st) = Inr m)) \<and>
      map_entries m = Some es \<and>
      start_entries w (or_empty (map_source m)) (or_empty (map_target m)) es st
        = (None, tasks, st1) \<and>
      length tasks = length es \<and> p = Fulfilled vs \<and> length vs = length es \<and>
      (\<forall>i < length es. \<exists>earlier later q s'.
         settling_order w (length es) = earlier @ i # later \<and>
         (tasks ! i) (snd (settle (map (catch_handleError h) tasks) earlier st1)) = (q, s') \<and>
         (\<forall>err. q = Rejected err \<longrightarrow> vs ! i = None \<and> (h, err) \<in> set (delivered st')) \<and>
         (\<forall>v. q = Fulfilled v \<longrightarrow> vs ! i = v))"
proof -
  from run obtain m where
    m: "arg = MapObject m \<or> (\<exists>mapFile. arg = MapFile mapFile \<and> readMapFile mapFile (disk st) = Inr m)"
    and om: "once_map w m h st = (Inr p, st')"
    unfolding once_def by (auto split: appMapArg.splits sum.splits)
  from om obtain es ps where es: "map_entries m = Some es"
    and oe: "once_entries w (or_empty (map_source m)) (or_empty (map_target m)) h es st = (Inr ps, st')"
    and p: "p = promise_all ps"
    unfolding once_map_def by (auto split: option.splits prod.splits sum.splits)
  from once_entries_settles[OF oe returns] obtain tasks st1 vs where
    r: "start_entries w (or_empty (map_source m)) (or_empty (map_target m)) es st = (None, tasks, st1)"
      "length tasks = length es" "ps = map Fulfilled vs" "length vs = length es"
      "\<forall>i < length es. \<exists>earlier later q s'.
         settling_order w (length es) = earlier @ i # later \<and>
         (tasks ! i) (snd (settle (map (catch_handleError h) tasks) earlier st1)) = (q, s') \<and>
         (\<forall>err. q = Rejected err \<longrightarrow> vs ! i = None \<and> (h, err) \<in> set (delivered st')) \<and>
         (\<forall>v. q = Fulfilled v \<longrightarrow> vs ! i = v)"
    by blast
  have "p = Fulfilled vs"
    using p r(3) by (simp add: promise_all_fulfilled)
  with m es r show ?thesis
    by (intro exI[of _ m] exI[of _ es] exI[of _ tasks] exI[of _ st1] exI[of _ vs] conjI)
qed

text \<open>
  When the collaborators that are parameters return promises rather than throw, no entry
  makes \<open>once\<close> throw: it returns its promise, and with a handler that returns the
  promise is fulfilled.
\<close>

lemma writeToFile_returns:
  assumes "\<forall>src tgt d. \<exists>p d'. files_copy w src tgt d = (Inr p, d')"
    and "\<forall>src. \<exists>p. html_compile w src = Inr p"
  shows "\<exists>pending st'. writeToFile w tp tn src t None st = (Inr pending, st')"
proof (cases t)
  case FilesType
  obtain p d' where "files_copy w src (getAbsolutePath (workdir (disk st)) tp tn) (disk st) = (Inr p, d')"
    using assms(1) by blast
  with FilesType show ?thesis
    unfolding writeToFile_def Let_def by (cases p) auto
next
  case JsType
  then show ?thesis
    unfolding writeToFile_def Let_def handler_compile_def by simp
next
  case CssType
  then show ?thesis
    unfolding writeToFile_def Let_def handler_compile_def by simp
next
  case HtmlType
  obtain p where "html_compile w src = Inr p" using assms(2) by blast
  with HtmlType show ?thesis
    unfolding writeToFile_def Let_def handler_compile_def by simp
qed

lemma start_entries_returns:
  assumes "\<forall>src tgt d. \<exists>p d'. files_copy w src tgt d = (Inr p, d')"
    and "\<forall>src. \<exists>p. html_compile w src = Inr p"
  shows "\<exists>tasks st1. start_entries w s t es st = (None, tasks, st1)"
proof (induction es arbitrary: st)
  case Nil
  then show ?case by simp
next
  case (Cons e es)
  obtain pending sa where "writeToFile w t (fst e)
      (getMappedEntries (workdir (disk st)) s (snd e)) (getFileType (fst e)) None st = (Inr pending, sa)"
    using writeToFile_returns[OF assms] by blast
  moreover from Cons.IH obtain tasks sb where "start_entries w s t es sa = (None, tasks, sb)"
    by blast
  ultimately show ?case by simp
qed

lemma once_returns:
  assumes "\<forall>src tgt d. \<exists>p d'. files_copy w src tgt d = (Inr p, d')"
    and "\<forall>src. \<exists>p. html_compile w src = Inr p"
    and "map_entries m = Some es"
  shows "\<exists>p st'. once w (MapObject m) h st = (Inr p, st')"
    and "\<forall>err. handler_result st h err = None \<Longrightarrow>
         \<exists>vs st'. once w (MapObject m) h st = (Inr (Fulfilled vs), st') \<and> length vs = length es"
proof -
  obtain tasks st1 where
    "start_entries w (or_empty (map_source m)) (or_empty (map_target m)) es st = (None, tasks, st1)"
    using start_entries_returns[OF assms(1,2)] by blast
  then have "\<exists>ps st'. once_entries w (or_empty (map_source m)) (or_empty (map_target m)) h es st
      = (Inr ps, st')"
    unfolding once_entries_def by (auto split: prod.splits)
  then show r: "\<exists>p st'. once w (MapObject m) h st = (Inr p, st')"
    using assms(3) by (auto simp: once_def once_map_def)
  assume returns: "\<forall>err. handler_result st h err = None"
  from r obtain p st' where o: "once w (MapObject m) h st = (Inr p, st')"
    by blast
  from once_settles[OF o returns] obtain m' es' vs where
    "MapObject m = MapObject m' \<or>
       (\<exists>mapFile. MapObject m = MapFile mapFile \<and> readMapFile mapFile (disk st) = Inr m')"
    "map_entries m' = Some es'" "p = Fulfilled vs" "length vs = length es'"
    by blast
  with assms(3) o show "\<exists>vs st'. once w (MapObject m) h st = (Inr (Fulfilled vs), st') \<and>
      length vs = length es"
    by auto
qed

text \<open>
  \<open>live\<close> takes the handler and hands it on to \<open>getWatchers\<close>, where nothing uses it: the
  \<open>catch(handleError)\<close> on the rebuild is commented out. In \<open>broken_world\<close> the rebuild
  that a change event starts is rejected; the rejection is dropped, and no handler has
  received anything.
\<close>

lemma live_rebuild_rejection_dropped:
  "getWatchers ''/w/src/app.js'' [''/w/src/app.js''] ''app.js'' ''out'' None (UserHandler 0)
     = [app_watcher] \<and>
   js_compile (js broken_world) (rebuild_source app_watcher) = Rejected (Failure ''SyntaxError'') \<and>
   (case run_until broken_world [(0, Some ''app.js'')] 2000 (app_watcher, example_state, 0) of
      (err, wt, st, n) \<Rightarrow> err = None \<and> wt = app_watcher \<and> n = 1 \<and> delivered st = [])"
  by code_simp




text \<open>
  C2: with no \<open>entries\<close> key, \<open>once\<close> throws a \<open>ReferenceError\<close> while it builds the
  error it means to report: the handler is not called, and the call does not return a
  promise.
\<close>

theorem once_without_entries_throws:
  "once w (MapObject (m\<lparr>map_entries := None\<rparr>)) h st = (Inl (ReferenceError ''mapFile''), st)"
  by (simp add: once_def once_map_def)

text \<open>
  C8: after \<open>onError\<close> with a user handler, a failure of the next \<open>once\<close> of the facade
  still goes to \<open>defaultHandleError\<close>; and \<open>onError\<close> itself throws at \<open>js.onError\<close>,
  having stored the handler in the facade, in css and in html.
\<close>

theorem facade_once_ignores_onError:
  "Build_onError (UserHandler 0) example_state =
     (Some (TypeError ''js.onError is not a function''),
      example_state\<lparr>build_handleError := UserHandler 0, css_handleError := UserHandler 0,
                     html_handleError := UserHandler 0\<rparr>) \<and>
   delivered (snd (Build_once example_world (MapObject example_map)
                     (snd (Build_onError (UserHandler 0) example_state)))) =
     [(DefaultHandleError, Failure ''Could not resolve entry module'')]"
proof -
  have "delivered (snd (Build_once example_world (MapObject example_map)
                     (snd (Build_onError (UserHandler 0) example_state)))) =
     [(DefaultHandleError, Failure ''Could not resolve entry module'')]"
    by code_simp
  then show ?thesis
    by (simp add: Build_onError_def css_onError_def html_onError_def)
qed

section \<open>Properties of reference discovery and of \<open>external\<close>\<close>



lemma discover_from_distinct:
  "distinct visited \<Longrightarrow> distinct (discover_from g ext stack visited)"
  by (induction g ext stack visited rule: discover_from.induct) auto



lemma discover_distinct: "distinct (discover g ext rootFile)"
  unfolding discover_def by (rule discover_from_distinct) simp






section \<open>Properties of the watch loop\<close>

lemma run_events_pending:
  assumes "w_timeOut wt = Some (due, path)" "\<forall>ev \<in> set evs. fst ev < due"
  shows "run_events w evs (wt, st, n) = (None, (wt, st, n))"
  using assms by (induction evs) (auto simp: advance_def on_raw_def)

lemma rebuild_source_timeOut: "rebuild_source (wt\<lparr>w_timeOut := x\<rparr>) = rebuild_source wt"
  by (cases "w_options wt") (simp_all add: rebuild_source_def)

lemma run_events_append:
  "run_events w (xs @ ys) r =
     (case run_events w xs r of
        (Some err, r') \<Rightarrow> (Some err, r')
      | (None, r') \<Rightarrow> run_events w ys r')"
  by (induction xs arbitrary: r) (auto split: prod.splits option.splits)

lemma burst_from_idle:
  assumes idle: "w_timeOut wt = None"
    and burst: "\<forall>ev \<in> set evs. fst ev < t0 + WATCH_TIMEOUT"
  shows "run_events w ((t0, path) # evs) (wt, st, n) =
           (None, (wt\<lparr>w_timeOut := Some (t0 + WATCH_TIMEOUT, path)\<rparr>, st, n))"
proof -
  let ?wt = "wt\<lparr>w_timeOut := Some (t0 + WATCH_TIMEOUT, path)\<rparr>"
  have "run_events w ((t0, path) # evs) (wt, st, n) = run_events w evs (?wt, st, n)"
    using idle by (simp add: advance_def on_raw_def)
  moreover have "run_events w evs (?wt, st, n) = (None, (?wt, st, n))"
    using burst by (intro run_events_pending[where due = "t0 + WATCH_TIMEOUT" and path = path]) simp_all
  ultimately show ?thesis by simp
qed

lemma timer_fires:
  assumes idle: "w_timeOut wt = None"
    and due: "due \<le> now"
    and returns: "writeToFile w (w_target wt) (w_output wt) (rebuild_source wt)
                    (getFileType (w_output wt)) path st = (Inr pending, st')"
  shows "advance w now (wt\<lparr>w_timeOut := Some (due, path)\<rparr>, st, n) =
           (None, (wt, snd (pending st'), Suc n))"
proof -
  have "wt\<lparr>w_timeOut := None\<rparr> = wt"
    using idle by (cases wt) simp
  then show ?thesis
    using due returns by (simp add: advance_def on_timeout_def rebuild_source_timeOut)
qed

text \<open>
  The debounce itself, for a rebuild that returns its promise: a burst of raw events that
  all arrive before the timer of the first is due starts one rebuild, with the path of
  the first event, and leaves the watcher without a pending timer; a later burst is
  debounced in the same way and starts the second rebuild. The state is the one that the
  callbacks of the promise leave.
\<close>

lemma debounce_burst_rebuilds_once:
  assumes idle: "w_timeOut wt = None"
    and burst: "\<forall>ev \<in> set evs. fst ev < t0 + WATCH_TIMEOUT"
    and due: "t0 + WATCH_TIMEOUT \<le> now"
    and returns: "writeToFile w (w_target wt) (w_output wt) (rebuild_source wt)
                    (getFileType (w_output wt)) path st = (Inr pending, st')"
  shows "run_until w ((t0, path) # evs) now (wt, st, n) = (None, (wt, snd (pending st'), Suc n))"
  using burst_from_idle[OF idle burst] timer_fires[OF idle due returns]
  by (simp add: run_until_def)

lemma debounce_next_burst:
  assumes idle: "w_timeOut wt = None"
    and burst1: "\<forall>ev \<in> set evs1. fst ev < t0 + WATCH_TIMEOUT"
    and later: "t0 + WATCH_TIMEOUT \<le> t1"
    and burst2: "\<forall>ev \<in> set evs2. fst ev < t1 + WATCH_TIMEOUT"
    and due: "t1 + WATCH_TIMEOUT \<le> now"
    and returns1: "writeToFile w (w_target wt) (w_output wt) (rebuild_source wt)
                    (getFileType (w_output wt)) path1 st = (Inr pending1, sa)"
    and settled1: "st1 = snd (pending1 sa)"
    and returns2: "writeToFile w (w_target wt) (w_output wt) (rebuild_source wt)
                    (getFileType (w_output wt)) path2 st1 = (Inr pending2, sb)"
    and settled2: "st2 = snd (pending2 sb)"
  shows "run_until w (((t0, path1) # evs1) @ ((t1, path2) # evs2)) now (wt, st, n) =
           (None, (wt, st2, Suc (Suc n)))"
proof -
  let ?wt1 = "wt\<lparr>w_timeOut := Some (t0 + WATCH_TIMEOUT, path1)\<rparr>"
  let ?wt2 = "wt\<lparr>w_timeOut := Some (t1 + WATCH_TIMEOUT, path2)\<rparr>"
  have a: "run_events w ((t0, path1) # evs1) (wt, st, n) = (None, (?wt1, st, n))"
    by (rule burst_from_idle[OF idle burst1])
  have b: "advance w t1 (?wt1, st, n) = (None, (wt, st1, Suc n))"
    unfolding settled1 by (rule timer_fires[OF idle later returns1])
  have c: "run_events w ((t1, path2) # evs2) (wt, st1, Suc n) = (None, (?wt2, st1, Suc n))"
    by (rule burst_from_idle[OF idle burst2])
  have "run_events w ((t1, path2) # evs2) (?wt1, st, n) = (None, (?wt2, st1, Suc n))"
  proof -
    have "run_events w ((t1, path2) # evs2) (?wt1, st, n) =
            run_events w evs2 (on_raw t1 path2 wt, st1, Suc n)"
      using b by simp
    also have "\<dots> = run_events w ((t1, path2) # evs2) (wt, st1, Suc n)"
      using idle by (simp add: advance_def)
    finally show ?thesis using c by simp
  qed
  then have "run_events w (((t0, path1) # evs1) @ ((t1, path2) # evs2)) (wt, st, n) =
      (None, (?wt2, st1, Suc n))"
    using a by (simp only: run_events_append prod.case option.case)
  moreover have "advance w now (?wt2, st1, Suc n) = (None, (wt, st2, Suc (Suc n)))"
    unfolding settled2 by (rule timer_fires[OF idle due returns2])
  ultimately show ?thesis
    by (simp add: run_until_def)
qed

text \<open>The watcher of a compiled stylesheet, after a burst of two events.\<close>

lemma style_watcher_burst:
  "(case run_until example_world [(0, Some ''main.scss''), (100, Some ''main.scss'')] 2000
           (style_watcher, example_state, 0) of
      (err, wt, st, n) \<Rightarrow>
        err = None \<and> wt = style_watcher \<and> n = 1 \<and>
        stat (disk st) ''out/style.css'' = Some (File ''a { b: c }''))"
  by code_simp

lemma files_rebuild_throws:
  assumes "getFileType (w_output wt) = FilesType" "\<forall>es. rebuild_source wt \<noteq> ListEntry es"
  shows "on_timeout w (Some file) wt st =
           (Some (TypeError ''entries.find is not a function''), wt, st)"
  using assms unfolding on_timeout_def writeToFile_def Let_def
  by (cases "rebuild_source wt") auto

text \<open>
  C4: for the watcher of a pass-through output the rebuild throws (see C5), so after a
  burst of two events the timer callback is left by the exception: one rebuild was
  started, and \<open>timeOut\<close> still holds the timer, so no later event starts another.
\<close>

theorem static_watcher_burst_leaves_timer:
  "run_until example_world [(0, Some ''a.txt''), (100, Some ''a.txt'')] 2000
     (static_watcher, example_state, 0) =
   (Some (TypeError ''entries.find is not a function''),
    (static_watcher\<lparr>w_timeOut := Some (2000, Some ''a.txt'')\<rparr>, example_state, 1))"
proof -
  let ?wt = "static_watcher\<lparr>w_timeOut := Some (0 + WATCH_TIMEOUT, Some ''a.txt'')\<rparr>"
  have idle: "w_timeOut static_watcher = None"
    by (simp add: static_watcher_def)
  have burst: "\<forall>ev \<in> set [(100, Some ''a.txt'')]. fst ev < 0 + WATCH_TIMEOUT"
    by (simp add: WATCH_TIMEOUT_def)
  have a: "run_events example_world [(0, Some ''a.txt''), (100, Some ''a.txt'')]
      (static_watcher, example_state, 0) = (None, (?wt, example_state, 0))"
    by (rule burst_from_idle[OF idle burst])
  have "getFileType ''static/'' = FilesType"
    by code_simp
  then have t: "getFileType (w_output ?wt) = FilesType"
    by (simp add: static_watcher_def)
  have r: "\<forall>es. rebuild_source ?wt \<noteq> ListEntry es"
    by (simp add: rebuild_source_def static_watcher_def)
  have "on_timeout example_world (Some ''a.txt'') ?wt example_state =
      (Some (TypeError ''entries.find is not a function''), ?wt, example_state)"
    by (rule files_rebuild_throws[OF t r])
  then have "advance example_world 2000 (?wt, example_state, 0) =
      (Some (TypeError ''entries.find is not a function''), (?wt, example_state, 1))"
    by (simp add: advance_def WATCH_TIMEOUT_def)
  with a show ?thesis
    by (simp add: run_until_def WATCH_TIMEOUT_def)
qed

text \<open>
  C5: on a change event for a pass-through output, \<open>writeToFile\<close> is called with the
  root file of the watcher (a string) as \<open>sourceFile\<close>; \<open>removeFileIfRedundant\<close> calls
  \<open>find\<close> on it and throws. The source \<open>a.txt\<close> is gone, its copy is still at the target,
  and it stays there.
\<close>

theorem stale_artifact_not_removed:
  "live example_world (MapObject static_map) DefaultHandleError example_state
     = Inr (Fulfilled [static_watcher]) \<and>
   \<not> existsSync example_disk ''/w/src/a.txt'' \<and>
   existsSync example_disk ''out/static/a.txt'' \<and>
   writeToFile example_world (w_target static_watcher) (w_output static_watcher)
     (rebuild_source static_watcher) (getFileType (w_output static_watcher)) (Some ''a.txt'')
     example_state =
   (Inl (TypeError ''entries.find is not a function''), example_state)"
proof -
  have "live example_world (MapObject static_map) DefaultHandleError example_state
     = Inr (Fulfilled [static_watcher])"
    by code_simp
  moreover have "\<not> existsSync example_disk ''/w/src/a.txt''"
    by code_simp
  moreover have "existsSync example_disk ''out/static/a.txt''"
    by code_simp
  moreover have "getFileType ''static/'' = FilesType"
    by code_simp
  then have "writeToFile example_world (w_target static_watcher) (w_output static_watcher)
     (rebuild_source static_watcher) (getFileType (w_output static_watcher)) (Some ''a.txt'')
     example_state =
   (Inl (TypeError ''entries.find is not a function''), example_state)"
    by (simp add: writeToFile_def rebuild_source_def static_watcher_def)
  ultimately show ?thesis by simp
qed

text \<open>
  On an array of entries the function does what its documentation says: here the
  source is gone and the copy at the target is unlinked.
\<close>

lemma removeFileIfRedundant_on_array:
  "map_sum id (\<lambda>fs. existsSync fs ''out/static/a.txt'')
     (removeFileIfRedundant ''a.txt'' (ListEntry [''/w/src/'']) ''out/static/'' example_disk)
   = Inr False"
  by code_simp

lemma removeFileIfRedundant_keeps:
  "find (entry_matches fs file) entries \<noteq> None \<or> \<not> existsSync fs (destPath @ file) \<Longrightarrow>
   removeFileIfRedundant file (ListEntry entries) destPath fs = Inr fs"
  by auto

section \<open>Properties of the static-files module\<close>

lemma getFileTargt_directory:
  "ends_with_sep target \<Longrightarrow> getFileTargt file target = target @ after_last_sep file"
  by (simp add: getFileTargt_def)

lemma getFileTargt_exact:
  "\<not> ends_with_sep target \<Longrightarrow> getFileTargt file target = target"
  by (simp add: getFileTargt_def)

text \<open>
  \<open>validatePathExists\<close> creates the missing directories of a relative path, one segment
  at a time. For an absolute target the first segment is empty and \<open>mkdirSync('')\<close>
  throws, so \<open>copy\<close> to an absolute target throws before it copies anything.
\<close>

lemma validatePathExists_relative:
  "(case validatePathExists ''dist/a/b'' example_disk of
      (err, fs) \<Rightarrow> err = None \<and> stat fs ''dist/a/b'' = Some (Dir []))"
  by code_simp

lemma validatePathExists_leading_sep:
  "p = [] \<or> hd p = sep \<Longrightarrow> validatePathExists p fs = (Some (FsError ''ENOENT'' ''mkdir''), fs)"
  by (cases p) (auto simp: validatePathExists_def existsSync_def stat_def mkdirSync_def)

lemma before_last_sep_Cons:
  "before_last_sep (sep # u) = (if sep \<in> set u then sep # before_last_sep u else [])"
proof (cases "sep \<in> set u")
  case True
  then have "dropWhile (\<lambda>c. c \<noteq> sep) (rev u @ [sep]) = dropWhile (\<lambda>c. c \<noteq> sep) (rev u) @ [sep]"
    by (intro dropWhile_append1[where x = sep]) simp_all
  moreover have "dropWhile (\<lambda>c. c \<noteq> sep) (rev u) \<noteq> []"
    using True by (simp add: dropWhile_eq_Nil_conv)
  ultimately show ?thesis
    using True by (simp add: before_last_sep_def)
next
  case False
  then have "dropWhile (\<lambda>c. c \<noteq> sep) (rev u @ [sep]) = dropWhile (\<lambda>c. c \<noteq> sep) [sep]"
    by (intro dropWhile_append2) auto
  then have "dropWhile (\<lambda>c. c \<noteq> sep) (rev u @ [sep]) = [sep]"
    by simp
  with False show ?thesis by (simp add: before_last_sep_def)
qed

lemma static_copy_absolute_target_throws:
  assumes "target \<noteq> []" "hd target = sep"
  shows "static_copy (Suc n) (StringEntry source) target fs =
           Some (Some (FsError ''ENOENT'' ''mkdir''), fs)"
proof -
  from assms obtain u where "target = sep # u" by (cases target) auto
  then have "before_last_sep target = [] \<or> hd (before_last_sep target) = sep"
    by (simp add: before_last_sep_Cons)
  then have "validatePathExists (before_last_sep target) fs = (Some (FsError ''ENOENT'' ''mkdir''), fs)"
    by (rule validatePathExists_leading_sep)
  then show ?thesis by (simp add: copy_body_def)
qed

text \<open>
  C9: copying the folder \<open>res/sub\<close>, which holds a file and a nested folder, into
  \<open>dist/\<close> creates \<open>dist\<close> and then throws at \<open>copyFileSync\<close>, whose source is a
  directory. Nothing of the folder arrives under the target.
\<close>

theorem static_copy_folder_throws:
  "(case static_copy (Suc n) (StringEntry ''res/sub'') ''dist/'' example_disk of
      None \<Rightarrow> False
    | Some (err, fs) \<Rightarrow>
        err = Some (FsError ''EISDIR'' ''copyfile'') \<and>
        existsSync fs ''dist'' \<and>
        \<not> existsSync fs ''dist/sub'' \<and>
        \<not> existsSync fs ''dist/sub/file2.1.html'' \<and>
        \<not> existsSync fs ''dist/sub/sub2/file3.html'' \<and>
        \<not> existsSync fs ''dist/file2.1.html'' \<and>
        \<not> existsSync fs ''dist/sub2/file3.html'')"
  by code_simp

text \<open>
  Copying the entries of the folder by pattern does not descend either: \<open>*.*\<close> matches
  the file but not the nested folder, whose name has no dot.
\<close>

lemma static_copy_pattern_skips_nested:
  "(case static_copy (Suc (Suc n)) (StringEntry ''res/sub/*.*'') ''dist/'' example_disk of
      None \<Rightarrow> False
    | Some (err, fs) \<Rightarrow>
        err = None \<and>
        stat fs ''dist/file2.1.html'' = Some (File ''two'') \<and>
        \<not> existsSync fs ''dist/sub2'' \<and>
        \<not> existsSync fs ''dist/file3.html'')"
  by code_simp

text \<open>
  A single file is copied under a target that ends in a separator with its own name, and
  to a target that does not under exactly that name; the missing target directory is
  created.
\<close>

lemma static_copy_single_file:
  "(case static_copy (Suc (Suc n)) (StringEntry ''res/file1.js'') ''dist/'' example_disk of
      None \<Rightarrow> False
    | Some (err, fs) \<Rightarrow> err = None \<and> stat fs ''dist/file1.js'' = Some (File ''one'')) \<and>
   (case static_copy (Suc n) (StringEntry ''res/file1.js'') ''dist/newName.js'' example_disk of
      None \<Rightarrow> False
    | Some (err, fs) \<Rightarrow> err = None \<and> stat fs ''dist/newName.js'' = Some (File ''one''))"
  by code_simp

end
